theory Spec2Isabelle
  imports Complex_Main
begin

section \<open>JavaScript values and JSON documents\<close>

text \<open>
  The services of the application pass JavaScript values through \<^verbatim>\<open>JSON.stringify\<close>
  and \<^verbatim>\<open>JSON.parse\<close> (the log buffer, the local key-value store). A JSON text is
  represented by the document it denotes (\<open>json\<close>), a runtime value by \<open>jsval\<close>.
  A \<^verbatim>\<open>Date\<close> is represented by its \<^verbatim>\<open>toISOString()\<close> text, or is the
  invalid date. Numbers are the finite values and the three non-finite ones
  (negative zero is not distinguished from zero).
\<close>

datatype number = Finite rat | NaN | PosInfinity | NegInfinity

datatype Date = ValidDate string | InvalidDate

datatype jsval =
    JUndefined
  | JNull
  | JBool bool
  | JNum number
  | JStr string
  | JDate Date
  | JArr "jsval list"
  | JObj "(string \<times> jsval) list"

datatype json =
    Null
  | Bool bool
  | Num rat
  | Str string
  | Arr "json list"
  | Obj "(string \<times> json) list"

text \<open>
  \<^verbatim>\<open>JSON.stringify(v)\<close>: \<open>None\<close> is the result \<^verbatim>\<open>undefined\<close>. Non-finite numbers
  and invalid dates are written as \<^verbatim>\<open>null\<close>, a date as the string of its
  \<^verbatim>\<open>toJSON()\<close>, an \<^verbatim>\<open>undefined\<close> array element as \<^verbatim>\<open>null\<close>, and a property
  whose value is \<^verbatim>\<open>undefined\<close> is left out.
\<close>

fun JSON_stringify :: "jsval \<Rightarrow> json option"
  and stringify_elems :: "jsval list \<Rightarrow> json list"
  and stringify_props :: "(string \<times> jsval) list \<Rightarrow> (string \<times> json) list" where
  "JSON_stringify JUndefined = None"
| "JSON_stringify JNull = Some Null"
| "JSON_stringify (JBool b) = Some (Bool b)"
| "JSON_stringify (JNum (Finite q)) = Some (Num q)"
| "JSON_stringify (JNum _) = Some Null"
| "JSON_stringify (JStr s) = Some (Str s)"
| "JSON_stringify (JDate (ValidDate ts)) = Some (Str ts)"
| "JSON_stringify (JDate InvalidDate) = Some Null"
| "JSON_stringify (JArr xs) = Some (Arr (stringify_elems xs))"
| "JSON_stringify (JObj kvs) = Some (Obj (stringify_props kvs))"
| "stringify_elems [] = []"
| "stringify_elems (x # xs) =
     (case JSON_stringify x of None \<Rightarrow> Null | Some j \<Rightarrow> j) # stringify_elems xs"
| "stringify_props [] = []"
| "stringify_props ((k, v) # kvs) =
     (case JSON_stringify v of
        None \<Rightarrow> stringify_props kvs
      | Some j \<Rightarrow> (k, j) # stringify_props kvs)"

text \<open>\<^verbatim>\<open>JSON.parse\<close> of the text of a document.\<close>

fun JSON_parse :: "json \<Rightarrow> jsval"
  and parse_elems :: "json list \<Rightarrow> jsval list"
  and parse_props :: "(string \<times> json) list \<Rightarrow> (string \<times> jsval) list" where
  "JSON_parse Null = JNull"
| "JSON_parse (Bool b) = JBool b"
| "JSON_parse (Num q) = JNum (Finite q)"
| "JSON_parse (Str s) = JStr s"
| "JSON_parse (Arr xs) = JArr (parse_elems xs)"
| "JSON_parse (Obj kvs) = JObj (parse_props kvs)"
| "parse_elems [] = []"
| "parse_elems (x # xs) = JSON_parse x # parse_elems xs"
| "parse_props [] = []"
| "parse_props ((k, v) # kvs) = (k, JSON_parse v) # parse_props kvs"

text \<open>The truthiness test of \<^verbatim>\<open>if (v)\<close>, \<^verbatim>\<open>v ? a : b\<close> and \<^verbatim>\<open>!v\<close>.\<close>

fun truthy :: "jsval \<Rightarrow> bool" where
  "truthy JUndefined = False"
| "truthy JNull = False"
| "truthy (JBool b) = b"
| "truthy (JNum n) = (n \<noteq> NaN \<and> n \<noteq> Finite 0)"
| "truthy (JStr s) = (s \<noteq> [])"
| "truthy (JDate _) = True"
| "truthy (JArr _) = True"
| "truthy (JObj _) = True"

text \<open>
  \<^verbatim>\<open>xs.slice(-n)\<close>: the last \<open>n\<close> elements, the whole array when it is shorter;
  \<^verbatim>\<open>slice(-0)\<close> is \<^verbatim>\<open>slice(0)\<close>, the whole array.
\<close>

definition slice_last :: "nat \<Rightarrow> 'a list \<Rightarrow> 'a list" where
  "slice_last n xs = (if n = 0 then xs else drop (length xs - n) xs)"

section \<open>Logger (src/utils/Logger.ts)\<close>

datatype level = INFO | WARN | ERROR

record LogEntry =
  timestamp :: string
  level :: level
  message :: string
  data :: "json option"

record Logger =
  logs :: "LogEntry list"

definition maxLogs :: nat where
  "maxLogs = 100"

definition new_Logger :: Logger where
  "new_Logger = \<lparr>logs = []\<rparr>"

text \<open>
  \<open>now\<close> is the text \<^verbatim>\<open>new Date().toISOString()\<close> yields at the call. The copy of the
  entry written to the console has no effect on the buffer and is left out.
\<close>

definition logEntry :: "string \<Rightarrow> level \<Rightarrow> string \<Rightarrow> jsval \<Rightarrow> LogEntry" where
  "logEntry now lvl msg d =
     \<lparr>timestamp = now, level = lvl, message = msg,
      data = (if truthy d then JSON_stringify d else None)\<rparr>"

definition addLog :: "string \<Rightarrow> level \<Rightarrow> string \<Rightarrow> jsval \<Rightarrow> Logger \<Rightarrow> Logger" where
  "addLog now lvl msg d L =
     (let pushed = logs L @ [logEntry now lvl msg d]
      in if length pushed > maxLogs
         then L\<lparr>logs := slice_last maxLogs pushed\<rparr>
         else L\<lparr>logs := pushed\<rparr>)"

definition info :: "string \<Rightarrow> string \<Rightarrow> jsval \<Rightarrow> Logger \<Rightarrow> Logger" where
  "info now msg d L = addLog now INFO msg d L"

definition warn :: "string \<Rightarrow> string \<Rightarrow> jsval \<Rightarrow> Logger \<Rightarrow> Logger" where
  "warn now msg d L = addLog now WARN msg d L"

definition error :: "string \<Rightarrow> string \<Rightarrow> jsval \<Rightarrow> Logger \<Rightarrow> Logger" where
  "error now msg d L = addLog now ERROR msg d L"

definition getLogs :: "Logger \<Rightarrow> LogEntry list" where
  "getLogs L = logs L"

definition clearLogs :: "Logger \<Rightarrow> Logger" where
  "clearLogs L = L\<lparr>logs := []\<rparr>"

text \<open>A call of one of the four mutating methods, with the clock reading it sees.\<close>

datatype logger_call =
    CallInfo string string jsval
  | CallWarn string string jsval
  | CallError string string jsval
  | CallClearLogs

fun run_call :: "Logger \<Rightarrow> logger_call \<Rightarrow> Logger" where
  "run_call L (CallInfo now msg d) = info now msg d L"
| "run_call L (CallWarn now msg d) = warn now msg d L"
| "run_call L (CallError now msg d) = error now msg d L"
| "run_call L CallClearLogs = clearLogs L"

definition run_calls :: "logger_call list \<Rightarrow> Logger \<Rightarrow> Logger" where
  "run_calls cs L = foldl run_call L cs"

text \<open>
  The reference the buffer is compared with, following the words of the specification:
  the entries appended since the buffer was last cleared, oldest first, as a log
  without a bound would hold them. \<open>call_entry\<close> is the entry a call appends.
\<close>

fun call_entry :: "logger_call \<Rightarrow> LogEntry option" where
  "call_entry (CallInfo now msg d) = Some (logEntry now INFO msg d)"
| "call_entry (CallWarn now msg d) = Some (logEntry now WARN msg d)"
| "call_entry (CallError now msg d) = Some (logEntry now ERROR msg d)"
| "call_entry CallClearLogs = None"

fun record_call :: "LogEntry list \<Rightarrow> logger_call \<Rightarrow> LogEntry list" where
  "record_call es c = (case call_entry c of None \<Rightarrow> [] | Some e \<Rightarrow> es @ [e])"

definition appended_since_clear :: "logger_call list \<Rightarrow> LogEntry list" where
  "appended_since_clear cs = foldl record_call [] cs"

text \<open>The most recent \<open>n\<close> elements of a list, in their order.\<close>

definition most_recent :: "nat \<Rightarrow> 'a list \<Rightarrow> 'a list" where
  "most_recent n xs = drop (length xs - n) xs"

section \<open>API client: upload with retry (two revisions of ApiService)\<close>

definition utf8 :: "nat list \<Rightarrow> string" where
  "utf8 bytes = map char_of bytes"

definition fallback_username_v1 :: string where \<comment> \<open>"prodavets1"\<close>
  "fallback_username_v1 = utf8 [208, 191, 209, 128, 208, 190, 208, 180, 208, 176, 208, 178,
     208, 181, 209, 134, 49]"

definition msg_cannot_authorize :: string where \<comment> \<open>"Ne udalos' avtorizovat'sya dlya zagruzki fayla"\<close>
  "msg_cannot_authorize = utf8 [208, 157, 208, 181, 32, 209, 131, 208, 180, 208, 176, 208,
     187, 208, 190, 209, 129, 209, 140, 32, 208, 176, 208, 178, 209, 130, 208, 190, 209,
     128, 208, 184, 208, 183, 208, 190, 208, 178, 208, 176, 209, 130, 209, 140, 209, 129,
     209, 143, 32, 208, 180, 208, 187, 209, 143, 32, 208, 183, 208, 176, 208, 179, 209, 128,
     209, 131, 208, 183, 208, 186, 208, 184, 32, 209, 132, 208, 176, 208, 185, 208, 187,
     208, 176]"

definition msg_auth_error_prefix :: string where \<comment> \<open>"Oshibka avtorizatsii: "\<close>
  "msg_auth_error_prefix = utf8 [208, 158, 209, 136, 208, 184, 208, 177, 208, 186, 208, 176,
     32, 208, 176, 208, 178, 209, 130, 208, 190, 209, 128, 208, 184, 208, 183, 208, 176,
     209, 134, 208, 184, 208, 184, 58, 32]"

definition msg_bad_uri_prefix :: string where \<comment> \<open>"Nekorrektnyy URI fayla: "\<close>
  "msg_bad_uri_prefix = utf8 [208, 157, 208, 181, 208, 186, 208, 190, 209, 128, 209, 128,
     208, 181, 208, 186, 209, 130, 208, 189, 209, 139, 208, 185, 32, 85, 82, 73, 32, 209,
     132, 208, 176, 208, 185, 208, 187, 208, 176, 58, 32]"

definition msg_parse_error :: string where \<comment> \<open>"Oshibka parsinga otveta servera"\<close>
  "msg_parse_error = utf8 [208, 158, 209, 136, 208, 184, 208, 177, 208, 186, 208, 176, 32,
     208, 191, 208, 176, 209, 128, 209, 129, 208, 184, 208, 189, 208, 179, 208, 176, 32,
     208, 190, 209, 130, 208, 178, 208, 181, 209, 130, 208, 176, 32, 209, 129, 208, 181,
     209, 128, 208, 178, 208, 181, 209, 128, 208, 176]"

text \<open>
  A thrown value: an \<^verbatim>\<open>Error\<close> object with its message, or some other value.
  \<open>error_message\<close> is \<^verbatim>\<open>(e as Error).message\<close> as it appears in a string
  concatenation, where the missing property of a value that is not an \<^verbatim>\<open>Error\<close>
  reads \<^verbatim>\<open>undefined\<close>.
\<close>

datatype thrown = Error string | NonError

fun error_message :: "thrown \<Rightarrow> string" where
  "error_message (Error m) = m"
| "error_message NonError = ''undefined''"

text \<open>Decimal digits of a number, as a template literal prints it.\<close>

fun string_of_nat :: "nat \<Rightarrow> string" where
  "string_of_nat n =
     (if n < 10 then [''0123456789'' ! n]
      else string_of_nat (n div 10) @ [''0123456789'' ! (n mod 10)])"

text \<open>
  What a request resolves to: the status code and the body text. \<open>ok\<close> is the
  \<^verbatim>\<open>ok\<close> flag of a \<^verbatim>\<open>fetch\<close> response. A request that cannot be completed
  rejects with the value thrown.
\<close>

record HttpResponse =
  status :: nat
  body :: string

definition ok :: "HttpResponse \<Rightarrow> bool" where
  "ok r = (200 \<le> status r \<and> status r \<le> 299)"

datatype fetch_outcome = Rejects thrown | Resolves HttpResponse

text \<open>
  The reply objects of the backend and of the client: \<^verbatim>\<open>success\<close>, the optional
  \<^verbatim>\<open>message\<close> and \<^verbatim>\<open>token\<close>, and the other properties (\<^verbatim>\<open>user\<close>,
  \<^verbatim>\<open>recording\<close>) that the client passes on untouched.
\<close>

record ApiReply =
  success :: bool
  message :: "string option"
  token :: "string option"
  rest :: "(string \<times> json) list"

text \<open>
  The platform and the server, as the client sees them: \<open>parseJSON\<close> is
  \<^verbatim>\<open>JSON.parse\<close> (and \<^verbatim>\<open>response.json()\<close>) on a body, giving the reply or the
  error thrown; \<open>loginFetch\<close> answers \<^verbatim>\<open>POST /api/auth/login\<close> for a user name and
  password; \<open>healthFetch\<close> and \<open>uploadFetch\<close> answer \<^verbatim>\<open>GET /health\<close> and the
  upload request of the attempt with the given number.
\<close>

record world =
  parseJSON :: "string \<Rightarrow> thrown + ApiReply"
  loginFetch :: "string \<Rightarrow> string \<Rightarrow> fetch_outcome"
  healthFetch :: "nat \<Rightarrow> fetch_outcome"
  uploadFetch :: "nat \<Rightarrow> fetch_outcome"

record ApiService =
  token :: "string option"

record RecordingData =
  uri :: string
  type :: string
  name :: string
  duration_seconds :: int
  location_id :: int
  recording_date :: string

text \<open>The calls and waits of one \<open>uploadAudio\<close>, in the order they happen.\<close>

datatype event =
    LoginCall string string
  | AttemptStart nat
  | HealthCheck
  | UploadCall
  | Delay nat

datatype revision = FetchRevision | ExpoRevision

definition setToken :: "string \<Rightarrow> ApiService \<Rightarrow> ApiService" where
  "setToken t st = st\<lparr>ApiService.token := Some t\<rparr>"

definition clearToken :: "ApiService \<Rightarrow> ApiService" where
  "clearToken st = st\<lparr>ApiService.token := None\<rparr>"

text \<open>\<^verbatim>\<open>if (this.token)\<close>: neither \<^verbatim>\<open>null\<close> nor the empty string.\<close>

definition hasToken :: "ApiService \<Rightarrow> bool" where
  "hasToken st = (case ApiService.token st of None \<Rightarrow> False | Some t \<Rightarrow> t \<noteq> [])"

definition request :: "world \<Rightarrow> fetch_outcome \<Rightarrow> thrown + ApiReply" where
  "request w outcome =
     (case outcome of
        Rejects e \<Rightarrow> Inl e
      | Resolves response \<Rightarrow>
          if \<not> ok response
          then Inl (Error (''HTTP error! status: '' @ string_of_nat (status response)))
          else parseJSON w (body response))"

definition login ::
  "world \<Rightarrow> string \<Rightarrow> string \<Rightarrow> ApiService \<Rightarrow> (thrown + ApiReply) \<times> ApiService" where
  "login w username password st =
     (case request w (loginFetch w username password) of
        Inl e \<Rightarrow> (Inl e, st)
      | Inr response \<Rightarrow>
          (case ApiReply.token response of
             Some t \<Rightarrow>
               if success response \<and> t \<noteq> [] then (Inr response, setToken t st)
               else (Inr response, st)
           | None \<Rightarrow> (Inr response, st)))"

fun fallback_credentials :: "revision \<Rightarrow> string \<times> string" where
  "fallback_credentials FetchRevision = (fallback_username_v1, ''123456'')"
| "fallback_credentials ExpoRevision = (''admin'', ''admin123'')"

definition startsWith :: "string \<Rightarrow> string \<Rightarrow> bool" where
  "startsWith p s = (take (length p) s = p)"

text \<open>
  The body of the \<^verbatim>\<open>try\<close> block of one attempt: the reply returned, or the value
  thrown, with the requests made. The log lines and the \<^verbatim>\<open>Authorization\<close> header
  have no effect on the control flow and are left out.
\<close>

fun uploadAttempt ::
  "revision \<Rightarrow> world \<Rightarrow> RecordingData \<Rightarrow> nat \<Rightarrow> (thrown + ApiReply) \<times> event list" where
  "uploadAttempt FetchRevision w recordingData attempt =
     (case healthFetch w attempt of
        Rejects e \<Rightarrow> (Inl e, [HealthCheck])
      | Resolves healthCheck \<Rightarrow>
          if \<not> ok healthCheck
          then (Inl (Error (''Server health check failed: '' @ string_of_nat (status healthCheck))),
                [HealthCheck])
          else
            (case uploadFetch w attempt of
               Rejects e \<Rightarrow> (Inl e, [HealthCheck, UploadCall])
             | Resolves response \<Rightarrow>
                 if \<not> ok response
                 then (Inl (Error (''HTTP '' @ string_of_nat (status response) @ '': '' @ body response)),
                       [HealthCheck, UploadCall])
                 else (parseJSON w (body response), [HealthCheck, UploadCall])))"
| "uploadAttempt ExpoRevision w recordingData attempt =
     (if uri recordingData = [] \<or> \<not> startsWith ''file://'' (uri recordingData)
      then (Inl (Error (msg_bad_uri_prefix @ uri recordingData)), [])
      else
        (case healthFetch w attempt of
           Rejects e \<Rightarrow> (Inl e, [HealthCheck])
         | Resolves healthCheck \<Rightarrow>
             if \<not> ok healthCheck
             then (Inl (Error (''Server health check failed: '' @ string_of_nat (status healthCheck))),
                   [HealthCheck])
             else
               (case uploadFetch w attempt of
                  Rejects e \<Rightarrow> (Inl e, [HealthCheck, UploadCall])
                | Resolves uploadResult \<Rightarrow>
                    if status uploadResult \<ge> 200 \<and> status uploadResult < 300
                    then
                      (case parseJSON w (body uploadResult) of
                         Inr result \<Rightarrow> (Inr result, [HealthCheck, UploadCall])
                       | Inl parseError \<Rightarrow> (Inl (Error msg_parse_error), [HealthCheck, UploadCall]))
                    else (Inl (Error (''HTTP '' @ string_of_nat (status uploadResult) @ '': ''
                                        @ body uploadResult)),
                          [HealthCheck, UploadCall]))))"

definition maxRetries :: nat where
  "maxRetries = 3"

text \<open>
  The \<^verbatim>\<open>for\<close> loop from \<open>attempt\<close> on and the \<^verbatim>\<open>throw lastError\<close> after it.
  \<open>Inl\<close> is a rejected promise (a thrown value), \<open>Inr\<close> a returned reply.
\<close>

function uploadLoop ::
  "revision \<Rightarrow> world \<Rightarrow> RecordingData \<Rightarrow> nat \<Rightarrow> thrown option \<Rightarrow> (thrown + ApiReply) \<times> event list" where
  "uploadLoop rv w recordingData attempt lastError =
     (if attempt \<le> maxRetries then
        (case uploadAttempt rv w recordingData attempt of
           (Inr result, calls) \<Rightarrow> (Inr result, AttemptStart attempt # calls)
         | (Inl err, calls) \<Rightarrow>
             (let waits = (if attempt < maxRetries then [Delay (attempt * 2000)] else []);
                  (outcome, later) = uploadLoop rv w recordingData (attempt + 1) (Some err)
              in (outcome, AttemptStart attempt # calls @ waits @ later)))
      else (Inl (case lastError of Some e \<Rightarrow> e | None \<Rightarrow> NonError), []))"
  by pat_completeness auto
termination
  by (relation "measure (\<lambda>(rv, w, recordingData, attempt, lastError). maxRetries + 1 - attempt)") auto

definition authFailure :: "thrown \<Rightarrow> ApiReply" where
  "authFailure authError =
     \<lparr>success = False, message = Some (msg_auth_error_prefix @ error_message authError),
      token = None, rest = []\<rparr>"

definition uploadAudio ::
  "revision \<Rightarrow> world \<Rightarrow> RecordingData \<Rightarrow> ApiService \<Rightarrow> (thrown + ApiReply) \<times> ApiService \<times> event list" where
  "uploadAudio rv w recordingData st =
     (if \<not> hasToken st then
        (case fallback_credentials rv of (username, password) \<Rightarrow>
           (case login w username password st of
              (Inl authError, st') \<Rightarrow>
                (Inr (authFailure authError), st', [LoginCall username password])
            | (Inr authResponse, st') \<Rightarrow>
                if \<not> success authResponse
                then (Inr (authFailure (Error msg_cannot_authorize)), st', [LoginCall username password])
                else
                  (case uploadLoop rv w recordingData 1 None of
                     (outcome, calls) \<Rightarrow> (outcome, st', LoginCall username password # calls))))
      else
        (case uploadLoop rv w recordingData 1 None of
           (outcome, calls) \<Rightarrow> (outcome, st, calls)))"

section \<open>Reading the outcome and the trace of an upload\<close>

definition outcome :: "(thrown + ApiReply) \<times> ApiService \<times> event list \<Rightarrow> thrown + ApiReply" where
  "outcome run = fst run"

definition final_state :: "(thrown + ApiReply) \<times> ApiService \<times> event list \<Rightarrow> ApiService" where
  "final_state run = fst (snd run)"

definition events :: "(thrown + ApiReply) \<times> ApiService \<times> event list \<Rightarrow> event list" where
  "events run = snd (snd run)"

text \<open>The numbers of the attempts started, the waits and the login calls of a trace.\<close>

fun attempts :: "event list \<Rightarrow> nat list" where
  "attempts [] = []"
| "attempts (AttemptStart n # es) = n # attempts es"
| "attempts (e # es) = attempts es"

fun delays :: "event list \<Rightarrow> nat list" where
  "delays [] = []"
| "delays (Delay ms # es) = ms # delays es"
| "delays (e # es) = delays es"

fun logins :: "event list \<Rightarrow> (string \<times> string) list" where
  "logins [] = []"
| "logins (LoginCall username password # es) = (username, password) # logins es"
| "logins (e # es) = logins es"

fun uploads :: "event list \<Rightarrow> nat" where
  "uploads [] = 0"
| "uploads (UploadCall # es) = Suc (uploads es)"
| "uploads (e # es) = uploads es"

text \<open>The attempts and the waits of a trace, in order, without the requests.\<close>

fun schedule :: "event list \<Rightarrow> event list" where
  "schedule [] = []"
| "schedule (AttemptStart n # es) = AttemptStart n # schedule es"
| "schedule (Delay ms # es) = Delay ms # schedule es"
| "schedule (e # es) = schedule es"

text \<open>Attempt \<open>n\<close> of the upload ends in the \<^verbatim>\<open>catch\<close> block.\<close>

definition attemptFails :: "revision \<Rightarrow> world \<Rightarrow> RecordingData \<Rightarrow> nat \<Rightarrow> bool" where
  "attemptFails rv w recordingData n = isl (fst (uploadAttempt rv w recordingData n))"

text \<open>
  The retry loop is reached: a token is held, or the implicit login with the fallback
  credentials returns a reply whose \<^verbatim>\<open>success\<close> is true.
\<close>

definition reachesUpload :: "revision \<Rightarrow> world \<Rightarrow> ApiService \<Rightarrow> bool" where
  "reachesUpload rv w st =
     (hasToken st \<or>
      (case fst (login w (fst (fallback_credentials rv)) (snd (fallback_credentials rv)) st) of
         Inl authError \<Rightarrow> False
       | Inr authResponse \<Rightarrow> success authResponse))"

section \<open>ApiService with the stored token (src/services/ApiService.ts)\<close>

definition msg_login_error :: string where \<comment> \<open>"Oshibka avtorizatsii"\<close>
  "msg_login_error = utf8 [208, 158, 209, 136, 208, 184, 208, 177, 208, 186, 208, 176, 32,
     208, 176, 208, 178, 209, 130, 208, 190, 209, 128, 208, 184, 208, 183, 208, 176, 209,
     134, 208, 184, 208, 184]"

text \<open>
  The service keeps the token in memory and mirrors it into the key-value store under
  \<^verbatim>\<open>authToken\<close>; the write is not awaited, and the model takes it to succeed.
\<close>

record StoredTokenApiService =
  authToken :: "string option"
  authTokenItem :: "string option"

definition setAuthToken :: "string \<Rightarrow> StoredTokenApiService \<Rightarrow> StoredTokenApiService" where
  "setAuthToken t st = st\<lparr>authToken := Some t, authTokenItem := Some t\<rparr>"

definition clearAuthToken :: "StoredTokenApiService \<Rightarrow> StoredTokenApiService" where
  "clearAuthToken st = st\<lparr>authToken := None, authTokenItem := None\<rparr>"

text \<open>
  \<open>makeRequest\<close> reads the body as JSON before it looks at the status; the error of a
  response that is not \<^verbatim>\<open>ok\<close> carries \<^verbatim>\<open>data.message\<close> when that is a non-empty
  string.
\<close>

definition makeRequest :: "world \<Rightarrow> fetch_outcome \<Rightarrow> thrown + ApiReply" where
  "makeRequest w fetched =
     (case fetched of
        Rejects e \<Rightarrow> Inl e
      | Resolves response \<Rightarrow>
          (case parseJSON w (body response) of
             Inl e \<Rightarrow> Inl e
           | Inr data' \<Rightarrow>
               if \<not> ok response
               then Inl (Error
                 (case message data' of
                    Some m \<Rightarrow>
                      if m \<noteq> [] then m
                      else ''HTTP error! status: '' @ string_of_nat (status response)
                  | None \<Rightarrow> ''HTTP error! status: '' @ string_of_nat (status response)))
               else Inr data'))"

text \<open>
  \<open>login\<close> of this service (the name is taken by the login of the retry revisions):
  the \<^verbatim>\<open>try\<close> block, and the \<^verbatim>\<open>catch\<close> block that turns any thrown value into a
  reply.
\<close>

definition login_stored ::
  "world \<Rightarrow> string \<Rightarrow> string \<Rightarrow> StoredTokenApiService
     \<Rightarrow> (thrown + ApiReply) \<times> StoredTokenApiService" where
  "login_stored w username password st =
     (case makeRequest w (loginFetch w username password) of
        Inr response \<Rightarrow>
          (case ApiReply.token response of
             Some t \<Rightarrow>
               if success response \<and> t \<noteq> [] then (Inr response, setAuthToken t st)
               else (Inr response, st)
           | None \<Rightarrow> (Inr response, st))
      | Inl err \<Rightarrow>
          (Inr \<lparr>success = False,
                message = Some (case err of Error m \<Rightarrow> m | NonError \<Rightarrow> msg_login_error),
                token = None, rest = []\<rparr>,
           st))"

section \<open>AudioService (src/services/AudioService.ts)\<close>

definition msg_uploaded :: string where \<comment> \<open>"Zapis' uspeshno zagruzhena na server"\<close>
  "msg_uploaded = utf8 [208, 151, 208, 176, 208, 191, 208, 184, 209, 129, 209, 140, 32, 209,
     131, 209, 129, 208, 191, 208, 181, 209, 136, 208, 189, 208, 190, 32, 208, 183, 208,
     176, 208, 179, 209, 128, 209, 131, 208, 182, 208, 181, 208, 189, 208, 176, 32, 208,
     189, 208, 176, 32, 209, 129, 208, 181, 209, 128, 208, 178, 208, 181, 209, 128]"

definition msg_server_error_prefix :: string where \<comment> \<open>"Oshibka servera: "\<close>
  "msg_server_error_prefix = utf8 [208, 158, 209, 136, 208, 184, 208, 177, 208, 186, 208,
     176, 32, 209, 129, 208, 181, 209, 128, 208, 178, 208, 181, 209, 128, 208, 176, 58, 32]"

definition msg_unknown_error :: string where \<comment> \<open>"Neizvestnaya oshibka"\<close>
  "msg_unknown_error = utf8 [208, 157, 208, 181, 208, 184, 208, 183, 208, 178, 208, 181,
     209, 129, 209, 130, 208, 189, 208, 176, 209, 143, 32, 208, 190, 209, 136, 208, 184,
     208, 177, 208, 186, 208, 176]"

definition msg_upload_problem_prefix :: string where \<comment> \<open>"Problema s zagruzkoy: "\<close>
  "msg_upload_problem_prefix = utf8 [208, 159, 209, 128, 208, 190, 208, 177, 208, 187, 208,
     181, 208, 188, 208, 176, 32, 209, 129, 32, 208, 183, 208, 176, 208, 179, 209, 128, 209,
     131, 208, 183, 208, 186, 208, 190, 208, 185, 58, 32]"

definition msg_saved_locally_suffix :: string where \<comment> \<open>". Zapis' sokhranena lokal'no."\<close>
  "msg_saved_locally_suffix = utf8 [46, 32, 208, 151, 208, 176, 208, 191, 208, 184, 209,
     129, 209, 140, 32, 209, 129, 208, 190, 209, 133, 209, 128, 208, 176, 208, 189, 208,
     181, 208, 189, 208, 176, 32, 208, 187, 208, 190, 208, 186, 208, 176, 208, 187, 209,
     140, 208, 189, 208, 190, 46]"

definition msg_unknown_upload_error :: string where \<comment> \<open>"Neizvestnaya oshibka pri zagruzke"\<close>
  "msg_unknown_upload_error = utf8 [208, 157, 208, 181, 208, 184, 208, 183, 208, 178, 208,
     181, 209, 129, 209, 130, 208, 189, 208, 176, 209, 143, 32, 208, 190, 209, 136, 208,
     184, 208, 177, 208, 186, 208, 176, 32, 208, 191, 209, 128, 208, 184, 32, 208, 183, 208,
     176, 208, 179, 209, 128, 209, 131, 208, 183, 208, 186, 208, 181]"

text \<open>
  What the audio platform does at one call of the service: the outcome of asking for
  the permission (the status text), of setting the audio mode, of creating a recording
  (the new recording object), of stopping it, and the URI it reports.
\<close>

record AudioPlatform =
  requestPermissionsAsync :: "thrown + string"
  setAudioModeAsync :: "thrown + unit"
  createAsync :: "thrown + nat"
  stopAndUnloadAsync :: "thrown + unit"
  getURI :: "string option"

record AudioService =
  recording :: "nat option"
  isRecording :: bool

datatype audio_call = RequestPermissions | SetAudioMode | CreateRecording | StopAndUnload

definition new_AudioService :: AudioService where
  "new_AudioService = \<lparr>recording = None, isRecording = False\<rparr>"

definition requestPermissions :: "AudioPlatform \<Rightarrow> bool" where
  "requestPermissions p =
     (case requestPermissionsAsync p of
        Inl e \<Rightarrow> False
      | Inr granted \<Rightarrow> granted = ''granted'')"

text \<open>
  \<open>startRecording\<close>: the value returned (\<open>None\<close> is \<^verbatim>\<open>null\<close>), the service afterwards
  and the platform calls made. Every throw inside ends in the \<^verbatim>\<open>catch\<close> block, which
  returns \<^verbatim>\<open>null\<close>.
\<close>

definition startRecording ::
  "AudioPlatform \<Rightarrow> AudioService \<Rightarrow> string option \<times> AudioService \<times> audio_call list" where
  "startRecording p st =
     (if isRecording st then (None, st, [])
      else if \<not> requestPermissions p then (None, st, [RequestPermissions])
      else
        (case setAudioModeAsync p of
           Inl e \<Rightarrow> (None, st, [RequestPermissions, SetAudioMode])
         | Inr u \<Rightarrow>
             (case createAsync p of
                Inl e \<Rightarrow> (None, st, [RequestPermissions, SetAudioMode, CreateRecording])
              | Inr created \<Rightarrow>
                  (Some ''recording'',
                   st\<lparr>recording := Some created, isRecording := True\<rparr>,
                   [RequestPermissions, SetAudioMode, CreateRecording]))))"

definition stopRecording ::
  "AudioPlatform \<Rightarrow> AudioService \<Rightarrow> string option \<times> AudioService \<times> audio_call list" where
  "stopRecording p st =
     (if \<not> isRecording st \<or> recording st = None then (None, st, [])
      else
        (case stopAndUnloadAsync p of
           Inl e \<Rightarrow> (None, st, [StopAndUnload])
         | Inr u \<Rightarrow> (getURI p, st\<lparr>isRecording := False, recording := None\<rparr>, [StopAndUnload])))"

definition getIsRecording :: "AudioService \<Rightarrow> bool" where
  "getIsRecording st = isRecording st"

text \<open>
  \<open>uploadRecording\<close>, from the outcome of \<^verbatim>\<open>FileSystem.uploadAsync\<close> on: the reply it
  returns. The parsed body is only logged.
\<close>

definition uploadRecording :: "(string \<Rightarrow> thrown + ApiReply) \<Rightarrow> fetch_outcome \<Rightarrow> ApiReply" where
  "uploadRecording parse uploaded =
     (case uploaded of
        Rejects err \<Rightarrow>
          \<lparr>success = False,
           message = Some (msg_upload_problem_prefix
             @ (case err of Error m \<Rightarrow> m | NonError \<Rightarrow> msg_unknown_upload_error)
             @ msg_saved_locally_suffix),
           token = None, rest = []\<rparr>
      | Resolves response \<Rightarrow>
          if status response = 200 \<or> status response = 201
          then
            (case parse (body response) of
               Inr result \<Rightarrow> \<lparr>success = True, message = Some msg_uploaded, token = None, rest = []\<rparr>
             | Inl parseError \<Rightarrow>
                 \<lparr>success = True, message = Some msg_uploaded, token = None, rest = []\<rparr>)
          else
            \<lparr>success = False,
             message = Some (msg_server_error_prefix @ string_of_nat (status response) @ ''. ''
               @ (if body response \<noteq> [] then body response else msg_unknown_error)),
             token = None, rest = []\<rparr>)"

text \<open>A sequence of start and stop calls on a fresh service, each with what the platform does.\<close>

datatype audio_op = Start AudioPlatform | Stop AudioPlatform

fun audio_step :: "AudioService \<Rightarrow> audio_op \<Rightarrow> AudioService" where
  "audio_step st (Start p) = fst (snd (startRecording p st))"
| "audio_step st (Stop p) = fst (snd (stopRecording p st))"

definition audio_run :: "audio_op list \<Rightarrow> AudioService" where
  "audio_run ops = foldl audio_step new_AudioService ops"

section \<open>StorageService (src/services/StorageService.ts) and the Recording type\<close>

text \<open>
  A \<open>Recording\<close> as the type declares it; the optional fields are \<open>None\<close> when absent.
  The field \<^verbatim>\<open>id\<close> is written \<open>id'\<close>.
\<close>

record Recording =
  id' :: string
  userId :: string
  locationId :: string
  startTime :: Date
  endTime :: "Date option"
  audioFilePath :: string
  duration :: number
  serverId :: "number option"
  synced :: "bool option"

text \<open>The object a \<open>Recording\<close> is at run time; an absent field reads \<^verbatim>\<open>undefined\<close>.\<close>

definition recording_value :: "Recording \<Rightarrow> jsval" where
  "recording_value r =
     JObj [(''id'', JStr (id' r)),
           (''userId'', JStr (userId r)),
           (''locationId'', JStr (locationId r)),
           (''startTime'', JDate (startTime r)),
           (''endTime'', (case endTime r of None \<Rightarrow> JUndefined | Some d \<Rightarrow> JDate d)),
           (''audioFilePath'', JStr (audioFilePath r)),
           (''duration'', JNum (duration r)),
           (''serverId'', (case serverId r of None \<Rightarrow> JUndefined | Some n \<Rightarrow> JNum n)),
           (''synced'', (case synced r of None \<Rightarrow> JUndefined | Some b \<Rightarrow> JBool b))]"

text \<open>
  Reading a property whose name is not built in (\<^verbatim>\<open>r.id\<close>): a \<^verbatim>\<open>TypeError\<close> on
  \<^verbatim>\<open>null\<close> and \<^verbatim>\<open>undefined\<close>, \<^verbatim>\<open>undefined\<close> where the value has no such property.
\<close>

fun getProp :: "jsval \<Rightarrow> string \<Rightarrow> thrown + jsval" where
  "getProp JUndefined k = Inl (Error ''TypeError: Cannot read property of undefined'')"
| "getProp JNull k = Inl (Error ''TypeError: Cannot read property of null'')"
| "getProp (JObj kvs) k = Inr (case map_of kvs k of None \<Rightarrow> JUndefined | Some v \<Rightarrow> v)"
| "getProp v k = Inr JUndefined"

text \<open>\<^verbatim>\<open>[...v]\<close>: the elements of an array, the characters of a string, else a \<^verbatim>\<open>TypeError\<close>.\<close>

fun spread :: "jsval \<Rightarrow> thrown + jsval list" where
  "spread (JArr xs) = Inr xs"
| "spread (JStr s) = Inr (map (\<lambda>c. JStr [c]) s)"
| "spread v = Inl (Error ''TypeError: object is not iterable'')"

text \<open>
  A string held by the key-value store: the JSON text of a document, or some other
  string, which \<^verbatim>\<open>JSON.parse\<close> rejects. \<open>RawText []\<close> is the empty string.
\<close>

datatype stored_text = JsonText json | RawText string

definition JSON_parse_text :: "stored_text \<Rightarrow> thrown + jsval" where
  "JSON_parse_text t =
     (case t of
        JsonText d \<Rightarrow> Inr (JSON_parse d)
      | RawText s \<Rightarrow> Inl (Error ''SyntaxError: JSON Parse error''))"

text \<open>
  The key-value store: its items, and \<open>rejecting\<close>, the error with which every call
  is rejected while the store is out of order (\<open>None\<close> when it works).
\<close>

record AsyncStorage =
  items :: "string \<Rightarrow> stored_text option"
  rejecting :: "thrown option"

definition getItem :: "AsyncStorage \<Rightarrow> string \<Rightarrow> thrown + stored_text option" where
  "getItem store key =
     (case rejecting store of Some e \<Rightarrow> Inl e | None \<Rightarrow> Inr (items store key))"

definition setItem :: "AsyncStorage \<Rightarrow> string \<Rightarrow> stored_text \<Rightarrow> (thrown + unit) \<times> AsyncStorage" where
  "setItem store key v =
     (case rejecting store of
        Some e \<Rightarrow> (Inl e, store)
      | None \<Rightarrow> (Inr (), store\<lparr>items := (items store)(key \<mapsto> v)\<rparr>))"

definition RECORDINGS_KEY :: string where
  "RECORDINGS_KEY = ''recordings''"

text \<open>
  \<open>getRecordings\<close> returns what \<^verbatim>\<open>JSON.parse\<close> gives, typed as a list of recordings by
  the annotation only; a missing or empty item, or any thrown value, gives the empty
  list.
\<close>

definition getRecordings :: "AsyncStorage \<Rightarrow> jsval" where
  "getRecordings store =
     (case getItem store RECORDINGS_KEY of
        Inl e \<Rightarrow> JArr []
      | Inr None \<Rightarrow> JArr []
      | Inr (Some recordingsData) \<Rightarrow>
          if recordingsData = RawText [] then JArr []
          else
            (case JSON_parse_text recordingsData of
               Inl e \<Rightarrow> JArr []
             | Inr parsed \<Rightarrow> parsed))"

text \<open>\<open>saveRecording\<close> and \<open>removeRecording\<close> return nothing; a thrown value is only logged.\<close>

definition saveRecording :: "Recording \<Rightarrow> AsyncStorage \<Rightarrow> AsyncStorage" where
  "saveRecording r store =
     (case spread (getRecordings store) of
        Inl e \<Rightarrow> store
      | Inr recordings \<Rightarrow>
          (let updatedRecordings = JArr (recordings @ [recording_value r])
           in case JSON_stringify updatedRecordings of
                None \<Rightarrow> store
              | Some d \<Rightarrow> snd (setItem store RECORDINGS_KEY (JsonText d))))"

text \<open>\<^verbatim>\<open>recordings.filter(r => r.id !== recordingId)\<close>, with the throw of the callback.\<close>

fun filterRecordings :: "string \<Rightarrow> jsval list \<Rightarrow> thrown + jsval list" where
  "filterRecordings recordingId [] = Inr []"
| "filterRecordings recordingId (r # rs) =
     (case getProp r ''id'' of
        Inl e \<Rightarrow> Inl e
      | Inr v \<Rightarrow>
          (case filterRecordings recordingId rs of
             Inl e \<Rightarrow> Inl e
           | Inr kept \<Rightarrow> Inr (if v \<noteq> JStr recordingId then r # kept else kept)))"

definition removeRecording :: "string \<Rightarrow> AsyncStorage \<Rightarrow> AsyncStorage" where
  "removeRecording recordingId store =
     (case getRecordings store of
        JArr recordings \<Rightarrow>
          (case filterRecordings recordingId recordings of
             Inl e \<Rightarrow> store
           | Inr filteredRecordings \<Rightarrow>
               (case JSON_stringify (JArr filteredRecordings) of
                  None \<Rightarrow> store
                | Some d \<Rightarrow> snd (setItem store RECORDINGS_KEY (JsonText d))))
      | other \<Rightarrow> store)"

section \<open>Sample servers and inputs\<close>

text \<open>
  Concrete inputs for the example runs below. \<open>sample_parse\<close> reads the three JSON
  bodies the sample servers send and rejects the plain texts they send.
\<close>

definition sample_parse :: "string \<Rightarrow> thrown + ApiReply" where
  "sample_parse s =
     (if s = ''{\"success\":true}''
      then Inr \<lparr>success = True, message = None, token = None, rest = []\<rparr>
      else if s = ''{\"success\":true,\"token\":\"abc\"}''
      then Inr \<lparr>success = True, message = None, token = Some ''abc'', rest = []\<rparr>
      else if s = ''{\"success\":false}''
      then Inr \<lparr>success = False, message = None, token = None, rest = []\<rparr>
      else Inl (Error ''JSON Parse error: Unexpected token''))"

definition server_down :: world where
  "server_down =
     \<lparr>parseJSON = sample_parse,
      loginFetch = (\<lambda>username password. Rejects (Error ''Network request failed'')),
      healthFetch = (\<lambda>attempt. Rejects (Error ''Network request failed'')),
      uploadFetch = (\<lambda>attempt. Rejects (Error ''Network request failed''))\<rparr>"

definition server_busy :: world where
  "server_busy =
     \<lparr>parseJSON = sample_parse,
      loginFetch = (\<lambda>username password.
         Resolves \<lparr>status = 200, body = ''{\"success\":true,\"token\":\"abc\"}''\<rparr>),
      healthFetch = (\<lambda>attempt. Resolves \<lparr>status = 200, body = ''{\"success\":true}''\<rparr>),
      uploadFetch = (\<lambda>attempt. Resolves \<lparr>status = 503, body = ''busy''\<rparr>)\<rparr>"

definition server_recovering :: world where
  "server_recovering =
     \<lparr>parseJSON = sample_parse,
      loginFetch = (\<lambda>username password.
         Resolves \<lparr>status = 200, body = ''{\"success\":true,\"token\":\"abc\"}''\<rparr>),
      healthFetch = (\<lambda>attempt.
         if attempt = 1 then Rejects (Error ''Network request failed'')
         else Resolves \<lparr>status = 200, body = ''{\"success\":true}''\<rparr>),
      uploadFetch = (\<lambda>attempt.
         if attempt = 2 then Resolves \<lparr>status = 503, body = ''busy''\<rparr>
         else Resolves \<lparr>status = 201, body = ''{\"success\":true}''\<rparr>)\<rparr>"

definition server_plain_ok :: world where
  "server_plain_ok =
     \<lparr>parseJSON = sample_parse,
      loginFetch = (\<lambda>username password.
         Resolves \<lparr>status = 200, body = ''{\"success\":true,\"token\":\"abc\"}''\<rparr>),
      healthFetch = (\<lambda>attempt. Resolves \<lparr>status = 200, body = ''OK''\<rparr>),
      uploadFetch = (\<lambda>attempt. Resolves \<lparr>status = 200, body = ''OK''\<rparr>)\<rparr>"

definition server_denying :: world where
  "server_denying =
     \<lparr>parseJSON = sample_parse,
      loginFetch = (\<lambda>username password. Resolves \<lparr>status = 200, body = ''{\"success\":false}''\<rparr>),
      healthFetch = (\<lambda>attempt. Resolves \<lparr>status = 200, body = ''{\"success\":true}''\<rparr>),
      uploadFetch = (\<lambda>attempt. Resolves \<lparr>status = 201, body = ''{\"success\":true}''\<rparr>)\<rparr>"

definition sample_recording :: RecordingData where
  "sample_recording =
     \<lparr>uri = ''file:///cache/rec.m4a'', type = ''audio/m4a'', name = ''rec.m4a'',
      duration_seconds = 12, location_id = 1, recording_date = ''2025-06-11T10:00:00.000Z''\<rparr>"

definition sample_saved :: Recording where
  "sample_saved =
     \<lparr>id' = ''1749636000000'', userId = ''1'', locationId = ''2'',
      startTime = ValidDate ''2025-06-11T10:00:00.000Z'',
      endTime = Some (ValidDate ''2025-06-11T10:00:12.000Z''),
      audioFilePath = ''file:///cache/rec.m4a'', duration = Finite 12000,
      serverId = None, synced = Some False\<rparr>"

definition empty_storage :: AsyncStorage where
  "empty_storage = \<lparr>items = (\<lambda>key. None), rejecting = None\<rparr>"

text \<open>\<open>n\<close> calls of \<open>info\<close> whose messages are the numbers 0 to \<open>n - 1\<close>.\<close>

definition sample_calls :: "nat \<Rightarrow> logger_call list" where
  "sample_calls n =
     map (\<lambda>k. CallInfo ''2025-06-11T10:00:00.000Z'' (string_of_nat k) JUndefined) [0..<n]"

section \<open>Properties of the log buffer\<close>

lemma addLog_logs:
  "logs (addLog now lvl msg d L) =
     (if length (logs L) < 100 then logs L @ [logEntry now lvl msg d]
      else drop (length (logs L) - 99) (logs L) @ [logEntry now lvl msg d])"
  by (simp add: addLog_def Let_def maxLogs_def slice_last_def)

lemma addLog_full:
  assumes "length (logs L) = 100"
  shows "logs (addLog now lvl msg d L) = tl (logs L) @ [logEntry now lvl msg d]"
proof -
  have "drop (Suc 0) (logs L) = tl (logs L)"
    by (simp add: drop_Suc)
  with assms show ?thesis
    by (simp add: addLog_logs)
qed

text \<open>One more entry: the buffer stays the most recent 100 of what was appended.\<close>

lemma addLog_most_recent:
  assumes "logs L = most_recent 100 es"
  shows "logs (addLog now lvl msg d L) = most_recent 100 (es @ [logEntry now lvl msg d])"
proof (cases "length es < 100")
  case True
  with assms show ?thesis
    by (simp add: addLog_logs most_recent_def)
next
  case False
  then have len: "length (logs L) = 100"
    using assms by (simp add: most_recent_def)
  from False have idx: "Suc (length es - 100) = length es - 99" "Suc (length es) - 100 = length es - 99"
    by arith+
  have "drop (length (logs L) - 99) (logs L) = drop (Suc 0) (logs L)"
    by (simp add: len)
  also have "\<dots> = drop (Suc 0) (drop (length es - 100) es)"
    using assms by (simp only: most_recent_def)
  also have "\<dots> = drop (length es - 99) es"
    by (simp add: idx(1))
  finally have dropped: "drop (length (logs L) - 99) (logs L) = drop (length es - 99) es" .
  from False have "most_recent 100 (es @ [logEntry now lvl msg d])
      = drop (length es - 99) es @ [logEntry now lvl msg d]"
    by (simp add: most_recent_def idx(2))
  with len dropped show ?thesis
    by (simp add: addLog_logs)
qed

lemma run_call_most_recent:
  assumes "logs L = most_recent 100 es"
  shows "logs (run_call L c) = most_recent 100 (record_call es c)"
  using assms
  by (cases c)
    (simp_all add: info_def warn_def error_def clearLogs_def addLog_most_recent,
      simp add: most_recent_def)

lemma run_calls_most_recent:
  "logs (run_calls cs new_Logger) = most_recent 100 (appended_since_clear cs)"
proof (induction cs rule: rev_induct)
  case Nil
  show ?case
    by (simp add: run_calls_def appended_since_clear_def new_Logger_def most_recent_def)
next
  case (snoc c cs)
  have "logs (run_call (run_calls cs new_Logger) c)
      = most_recent 100 (record_call (appended_since_clear cs) c)"
    using snoc.IH by (rule run_call_most_recent)
  then show ?case
    by (simp add: run_calls_def appended_since_clear_def)
qed

text \<open>
  C6. Whatever sequence of \<open>info\<close>, \<open>warn\<close>, \<open>error\<close> and \<open>clearLogs\<close> calls is run on
  the empty buffer, \<open>getLogs\<close> returns the most recent 100 of the entries appended since
  the last \<open>clearLogs\<close>, oldest first (all of them while they are fewer), so never more
  than 100. Adding an entry to a buffer, reached by such calls or not, that holds fewer
  than 100 appends it and drops nothing; adding one to a buffer that holds 100 drops
  exactly its first (oldest) entry and keeps the other 99 followed by the new one.
\<close>

theorem log_buffer_capacity:
  "getLogs (run_calls cs new_Logger) = most_recent 100 (appended_since_clear cs) \<and>
   length (getLogs (run_calls cs new_Logger)) \<le> 100 \<and>
   (length (getLogs L) < 100 \<longrightarrow>
      getLogs (addLog now lvl msg d L) = getLogs L @ [logEntry now lvl msg d]) \<and>
   (length (getLogs L) = 100 \<longrightarrow>
      getLogs (addLog now lvl msg d L) = tl (getLogs L) @ [logEntry now lvl msg d] \<and>
      length (getLogs (addLog now lvl msg d L)) = 100)"
proof -
  have kept: "logs (run_calls cs new_Logger) = most_recent 100 (appended_since_clear cs)"
    by (rule run_calls_most_recent)
  then have bound: "length (logs (run_calls cs new_Logger)) \<le> 100"
    by (simp add: most_recent_def)
  have room: "length (logs L) < 100 \<Longrightarrow>
      logs (addLog now lvl msg d L) = logs L @ [logEntry now lvl msg d]"
    by (simp add: addLog_logs)
  have full: "length (logs L) = 100 \<Longrightarrow>
      logs (addLog now lvl msg d L) = tl (logs L) @ [logEntry now lvl msg d]"
    by (rule addLog_full)
  from kept bound room full show ?thesis
    by (simp add: getLogs_def)
qed

lemma sample_calls_Suc:
  "sample_calls (Suc n)
     = sample_calls n @ [CallInfo ''2025-06-11T10:00:00.000Z'' (string_of_nat n) JUndefined]"
  by (simp add: sample_calls_def)

lemma sample_calls_appended:
  "appended_since_clear (sample_calls n)
     = map (\<lambda>k. logEntry ''2025-06-11T10:00:00.000Z'' INFO (string_of_nat k) JUndefined) [0..<n]"
  by (induction n) (simp_all add: sample_calls_Suc appended_since_clear_def, simp add: sample_calls_def)

theorem log_buffer_capacity_witness:
  "length (getLogs (run_calls (sample_calls 100) new_Logger)) = 100 \<and>
   hd (getLogs (run_calls (sample_calls 100) new_Logger))
     = logEntry ''2025-06-11T10:00:00.000Z'' INFO ''0'' JUndefined \<and>
   getLogs (run_calls (sample_calls 101) new_Logger)
     = tl (getLogs (run_calls (sample_calls 100) new_Logger))
         @ [logEntry ''2025-06-11T10:00:00.000Z'' INFO ''100'' JUndefined] \<and>
   hd (getLogs (run_calls (sample_calls 101) new_Logger))
     = logEntry ''2025-06-11T10:00:00.000Z'' INFO ''1'' JUndefined \<and>
   length (getLogs (run_calls (sample_calls 3) new_Logger)) < 100 \<and>
   getLogs (run_calls (sample_calls 3) new_Logger)
     = [logEntry ''2025-06-11T10:00:00.000Z'' INFO ''0'' JUndefined,
        logEntry ''2025-06-11T10:00:00.000Z'' INFO ''1'' JUndefined,
        logEntry ''2025-06-11T10:00:00.000Z'' INFO ''2'' JUndefined]"
proof -
  let ?ts = "''2025-06-11T10:00:00.000Z''"
  let ?L = "run_calls (sample_calls 100) new_Logger"
  let ?entry = "\<lambda>k. logEntry ?ts INFO (string_of_nat k) JUndefined"
  have kept: "getLogs (run_calls (sample_calls n) new_Logger)
      = most_recent 100 (map ?entry [0..<n])" for n
    using log_buffer_capacity [of "sample_calls n"] by (simp add: sample_calls_appended)
  have len: "length (getLogs ?L) = 100"
    by (simp add: kept most_recent_def)
  have first: "hd (getLogs ?L) = logEntry ?ts INFO ''0'' JUndefined"
    by (simp add: kept most_recent_def upt_conv_Cons)
  have "sample_calls 101 = sample_calls 100 @ [CallInfo ?ts (string_of_nat 100) JUndefined]"
    using sample_calls_Suc [of 100] by simp
  then have "run_calls (sample_calls 101) new_Logger = addLog ?ts INFO ''100'' JUndefined ?L"
    by (simp add: run_calls_def info_def)
  with len log_buffer_capacity [of "[]" ?L ?ts INFO "''100''" JUndefined]
  have next_one: "getLogs (run_calls (sample_calls 101) new_Logger)
      = tl (getLogs ?L) @ [logEntry ?ts INFO ''100'' JUndefined]"
    by simp
  have "[0..<101] = 0 # 1 # [2..<101]"
    by (simp add: upt_conv_Cons)
  then have second: "hd (getLogs (run_calls (sample_calls 101) new_Logger))
      = logEntry ?ts INFO ''1'' JUndefined"
    by (simp add: kept most_recent_def)
  have "[0..<3] = [0, 1, 2]"
    by (simp add: upt_conv_Cons)
  then have three: "getLogs (run_calls (sample_calls 3) new_Logger)
      = [logEntry ?ts INFO ''0'' JUndefined, logEntry ?ts INFO ''1'' JUndefined,
         logEntry ?ts INFO ''2'' JUndefined]"
    by (simp add: kept most_recent_def)
  from len first next_one second three show ?thesis
    by simp
qed

section \<open>Properties of the upload with retry\<close>

declare uploadLoop.simps [simp del]

lemma uploadAttempt_schedule: "schedule (snd (uploadAttempt rv w rd n)) = []"
  by (cases rv) (simp_all split: fetch_outcome.splits sum.splits)

lemma uploadAttempt_logins: "logins (snd (uploadAttempt rv w rd n)) = []"
  by (cases rv) (simp_all split: fetch_outcome.splits sum.splits)

lemma schedule_append: "schedule (xs @ ys) = schedule xs @ schedule ys"
  by (induction xs rule: schedule.induct) simp_all

lemma logins_append: "logins (xs @ ys) = logins xs @ logins ys"
  by (induction xs rule: logins.induct) simp_all

lemma attempts_schedule: "attempts (schedule es) = attempts es"
  by (induction es rule: schedule.induct) simp_all

lemma delays_schedule: "delays (schedule es) = delays es"
  by (induction es rule: schedule.induct) simp_all

lemma uploadLoop_4: "uploadLoop rv w rd 4 (Some e) = (Inl e, [])"
  by (subst uploadLoop.simps) (simp add: maxRetries_def)

lemma uploadLoop_3:
  "uploadLoop rv w rd 3 le =
     (fst (uploadAttempt rv w rd 3), AttemptStart 3 # snd (uploadAttempt rv w rd 3))"
  by (subst uploadLoop.simps) (simp add: maxRetries_def uploadLoop_4 split: prod.splits sum.splits)

lemma uploadLoop_2:
  "uploadLoop rv w rd 2 le =
     (if \<not> attemptFails rv w rd 2
      then (fst (uploadAttempt rv w rd 2), AttemptStart 2 # snd (uploadAttempt rv w rd 2))
      else (fst (uploadAttempt rv w rd 3),
            AttemptStart 2 # snd (uploadAttempt rv w rd 2)
              @ Delay 4000 # AttemptStart 3 # snd (uploadAttempt rv w rd 3)))"
  by (subst uploadLoop.simps)
    (simp add: maxRetries_def uploadLoop_3 attemptFails_def split: prod.splits sum.splits)

text \<open>The three attempts laid out: what the loop returns and the trace it leaves.\<close>

lemma uploadLoop_1:
  "uploadLoop rv w rd (Suc 0) le =
     (if \<not> attemptFails rv w rd 1
      then (fst (uploadAttempt rv w rd 1), AttemptStart 1 # snd (uploadAttempt rv w rd 1))
      else if \<not> attemptFails rv w rd 2
      then (fst (uploadAttempt rv w rd 2),
            AttemptStart 1 # snd (uploadAttempt rv w rd 1)
              @ Delay 2000 # AttemptStart 2 # snd (uploadAttempt rv w rd 2))
      else (fst (uploadAttempt rv w rd 3),
            AttemptStart 1 # snd (uploadAttempt rv w rd 1)
              @ Delay 2000 # AttemptStart 2 # snd (uploadAttempt rv w rd 2)
              @ Delay 4000 # AttemptStart 3 # snd (uploadAttempt rv w rd 3)))"
  by (subst uploadLoop.simps)
    (simp add: maxRetries_def numeral_2_eq_2 [symmetric] uploadLoop_2 attemptFails_def
      split: prod.splits sum.splits)

lemma uploadLoop_outcome:
  "fst (uploadLoop rv w rd (Suc 0) None) =
     (if \<not> attemptFails rv w rd 1 then fst (uploadAttempt rv w rd 1)
      else if \<not> attemptFails rv w rd 2 then fst (uploadAttempt rv w rd 2)
      else fst (uploadAttempt rv w rd 3))"
  by (simp add: uploadLoop_1)

lemma uploadLoop_schedule:
  "schedule (snd (uploadLoop rv w rd (Suc 0) None)) =
     (if \<not> attemptFails rv w rd 1 then [AttemptStart 1]
      else if \<not> attemptFails rv w rd 2 then [AttemptStart 1, Delay 2000, AttemptStart 2]
      else [AttemptStart 1, Delay 2000, AttemptStart 2, Delay 4000, AttemptStart 3])"
  by (simp add: uploadLoop_1 schedule_append uploadAttempt_schedule)

lemma uploadLoop_logins: "logins (snd (uploadLoop rv w rd (Suc 0) None)) = []"
  by (simp add: uploadLoop_1 logins_append uploadAttempt_logins)

lemma uploads_append: "uploads (xs @ ys) = uploads xs + uploads ys"
  by (induction xs rule: uploads.induct) simp_all

lemma uploadAttempt_uploads: "uploads (snd (uploadAttempt rv w rd n)) \<le> 1"
  by (cases rv) (simp_all split: fetch_outcome.splits sum.splits)

lemma uploadLoop_uploads: "uploads (snd (uploadLoop rv w rd (Suc 0) None)) \<le> 3"
proof -
  have "uploads (snd (uploadAttempt rv w rd 1)) \<le> 1"
    "uploads (snd (uploadAttempt rv w rd 2)) \<le> 1"
    "uploads (snd (uploadAttempt rv w rd 3)) \<le> 1"
    by (rule uploadAttempt_uploads)+
  then show ?thesis
    by (simp add: uploadLoop_1 uploads_append)
qed

text \<open>When the loop is reached, \<open>uploadAudio\<close> is the loop, after the login call if any.\<close>

lemma uploadAudio_reached:
  assumes "reachesUpload rv w st"
  shows "outcome (uploadAudio rv w rd st) = fst (uploadLoop rv w rd 1 None)"
    and "schedule (events (uploadAudio rv w rd st)) = schedule (snd (uploadLoop rv w rd 1 None))"
  using assms
  by (auto simp add: reachesUpload_def uploadAudio_def outcome_def events_def
      split: prod.splits sum.splits)

lemma uploadAudio_not_reached:
  assumes "\<not> reachesUpload rv w st"
  shows "events (uploadAudio rv w rd st)
           = [LoginCall (fst (fallback_credentials rv)) (snd (fallback_credentials rv))]"
    and "\<exists>authError. outcome (uploadAudio rv w rd st) = Inr (authFailure authError)"
  using assms
  by (auto simp add: reachesUpload_def uploadAudio_def outcome_def events_def
      split: prod.splits sum.splits)

lemma uploadAudio_uploads: "uploads (events (uploadAudio rv w rd st)) \<le> 3"
  using uploadLoop_uploads [of rv w rd]
  by (auto simp add: uploadAudio_def events_def split: prod.splits sum.splits)

lemma uploadAudio_attempts_le: "length (attempts (events (uploadAudio rv w rd st))) \<le> 3"
proof (cases "reachesUpload rv w st")
  case True
  then have "schedule (events (uploadAudio rv w rd st)) = schedule (snd (uploadLoop rv w rd 1 None))"
    by (rule uploadAudio_reached)
  then have "attempts (events (uploadAudio rv w rd st))
      = attempts (schedule (snd (uploadLoop rv w rd 1 None)))"
    by (metis attempts_schedule)
  then show ?thesis
    by (simp add: uploadLoop_schedule)
next
  case False
  then show ?thesis
    by (simp add: uploadAudio_not_reached)
qed

text \<open>
  C1 (as amended). When the three attempts are made (the retry loop is reached) and
  each of them fails, \<open>uploadAudio\<close> surfaces the last error by throwing it: the
  promise is rejected with the error of the third attempt, and nothing is returned.
\<close>

theorem upload_exhausted_throws_last_error:
  assumes "reachesUpload rv w st"
    and "\<forall>n\<in>{1, 2, 3}. attemptFails rv w recordingData n"
  shows "(\<exists>lastError. fst (uploadAttempt rv w recordingData 3) = Inl lastError \<and>
            outcome (uploadAudio rv w recordingData st) = Inl lastError) \<and>
         (\<forall>reply. outcome (uploadAudio rv w recordingData st) \<noteq> Inr reply)"
proof -
  from assms(2) have f: "attemptFails rv w recordingData 1" "attemptFails rv w recordingData 2"
    "attemptFails rv w recordingData 3"
    by simp_all
  from f(3) obtain lastError where e: "fst (uploadAttempt rv w recordingData 3) = Inl lastError"
    by (auto simp add: attemptFails_def isl_def)
  from assms(1) have "outcome (uploadAudio rv w recordingData st)
      = fst (uploadLoop rv w recordingData 1 None)"
    by (rule uploadAudio_reached)
  with f e have "outcome (uploadAudio rv w recordingData st) = Inl lastError"
    by (simp add: uploadLoop_outcome)
  with e show ?thesis
    by simp
qed

text \<open>
  C2. An upload starts at most three attempts and sends at most three upload requests.
  When the loop is reached and every attempt fails, exactly the attempts 1, 2, 3 are
  made and the upload ends in failure; when attempt \<open>k\<close> is the first to succeed,
  exactly the attempts 1 to \<open>k\<close> are made and the reply of attempt \<open>k\<close> is returned.
\<close>

theorem upload_attempt_budget:
  "length (attempts (events (uploadAudio rv w recordingData st))) \<le> 3 \<and>
   uploads (events (uploadAudio rv w recordingData st)) \<le> 3 \<and>
   (reachesUpload rv w st \<longrightarrow>
      ((\<forall>n\<in>{1, 2, 3}. attemptFails rv w recordingData n) \<longrightarrow>
          attempts (events (uploadAudio rv w recordingData st)) = [1, 2, 3] \<and>
          isl (outcome (uploadAudio rv w recordingData st))) \<and>
      (\<forall>k\<in>{1, 2, 3}.
          \<not> attemptFails rv w recordingData k \<and> (\<forall>n\<in>{1..<k}. attemptFails rv w recordingData n) \<longrightarrow>
          attempts (events (uploadAudio rv w recordingData st)) = [1..<Suc k] \<and>
          outcome (uploadAudio rv w recordingData st) = fst (uploadAttempt rv w recordingData k)))"
proof -
  let ?run = "uploadAudio rv w recordingData st"
  have a: "attempts (events ?run) = attempts (schedule (events ?run))"
    by (simp add: attempts_schedule)
  have reached: "reachesUpload rv w st \<Longrightarrow>
      attempts (events ?run) =
        (if \<not> attemptFails rv w recordingData 1 then [1]
         else if \<not> attemptFails rv w recordingData 2 then [1, 2] else [1, 2, 3])"
    by (simp add: a uploadAudio_reached uploadLoop_schedule)
  have out: "reachesUpload rv w st \<Longrightarrow>
      outcome ?run =
        (if \<not> attemptFails rv w recordingData 1 then fst (uploadAttempt rv w recordingData 1)
         else if \<not> attemptFails rv w recordingData 2 then fst (uploadAttempt rv w recordingData 2)
         else fst (uploadAttempt rv w recordingData 3))"
    by (simp add: uploadAudio_reached uploadLoop_outcome)
  have all_fail: "reachesUpload rv w st \<Longrightarrow> \<forall>n\<in>{1, 2, 3}. attemptFails rv w recordingData n \<Longrightarrow>
      attempts (events ?run) = [1, 2, 3] \<and> isl (outcome ?run)"
    by (simp add: reached out) (simp add: attemptFails_def)
  have upt: "[Suc 0..<3] = [Suc 0, 2]" "[Suc 0..<4] = [Suc 0, 2, 3]"
    by (simp_all add: upt_rec)
  have first_ok: "reachesUpload rv w st \<Longrightarrow> k \<in> {1, 2, 3} \<Longrightarrow>
      \<not> attemptFails rv w recordingData k \<Longrightarrow> \<forall>n\<in>{1..<k}. attemptFails rv w recordingData n \<Longrightarrow>
      attempts (events ?run) = [1..<Suc k] \<and> outcome ?run = fst (uploadAttempt rv w recordingData k)"
    for k
  proof -
    assume r: "reachesUpload rv w st" and k: "k \<in> {1, 2, 3}"
      and ok: "\<not> attemptFails rv w recordingData k"
      and before: "\<forall>n\<in>{1..<k}. attemptFails rv w recordingData n"
    from k consider "k = 1" | "k = 2" | "k = 3" by auto
    then show ?thesis
    proof cases
      case 1
      with ok r show ?thesis by (simp add: reached out)
    next
      case 2
      with before have "attemptFails rv w recordingData 1" by simp
      with 2 ok r show ?thesis by (simp add: reached out upt)
    next
      case 3
      with before have "attemptFails rv w recordingData 1" "attemptFails rv w recordingData 2"
        by simp_all
      with 3 ok r show ?thesis by (simp add: reached out upt)
    qed
  qed
  from uploadAudio_attempts_le [of rv w recordingData st] uploadAudio_uploads [of rv w recordingData st]
    all_fail first_ok
  show ?thesis
    by blast
qed

text \<open>
  C1, as stated, fails: with a token held and a server that cannot be reached, all three
  attempts fail and both revisions of \<open>uploadAudio\<close> throw the last error; no failure
  reply is returned.
\<close>

theorem upload_exhausted_returns_failure_counterexample:
  "outcome (uploadAudio ExpoRevision server_down sample_recording \<lparr>token = Some ''abc''\<rparr>)
     = Inl (Error ''Network request failed'') \<and>
   outcome (uploadAudio FetchRevision server_down sample_recording \<lparr>token = Some ''abc''\<rparr>)
     = Inl (Error ''Network request failed'')"
  by (simp add: outcome_def uploadAudio_def hasToken_def uploadLoop_1 attemptFails_def
      server_down_def sample_recording_def startsWith_def)

lemma held_token_reaches: "reachesUpload rv w \<lparr>token = Some ''abc''\<rparr>"
  by (simp add: reachesUpload_def hasToken_def)

lemma server_busy_fails: "attemptFails ExpoRevision server_busy sample_recording n"
  by (simp add: attemptFails_def server_busy_def sample_recording_def startsWith_def ok_def)

lemma server_recovering_attempts:
  "attemptFails FetchRevision server_recovering sample_recording 1"
  "attemptFails FetchRevision server_recovering sample_recording 2"
  "fst (uploadAttempt FetchRevision server_recovering sample_recording 3)
     = Inr \<lparr>success = True, message = None, token = None, rest = []\<rparr>"
  by (simp_all add: attemptFails_def server_recovering_def sample_recording_def ok_def
      sample_parse_def)

theorem upload_exhausted_throws_last_error_witness:
  "reachesUpload ExpoRevision server_busy \<lparr>token = Some ''abc''\<rparr> \<and>
   attemptFails ExpoRevision server_busy sample_recording 1 \<and>
   attemptFails ExpoRevision server_busy sample_recording 2 \<and>
   attemptFails ExpoRevision server_busy sample_recording 3 \<and>
   outcome (uploadAudio ExpoRevision server_busy sample_recording \<lparr>token = Some ''abc''\<rparr>)
     = Inl (Error ''HTTP 503: busy'')"
proof -
  have e: "fst (uploadAttempt ExpoRevision server_busy sample_recording 3)
      = Inl (Error ''HTTP 503: busy'')"
    by (simp add: server_busy_def sample_recording_def startsWith_def ok_def)
  from held_token_reaches server_busy_fails e
    upload_exhausted_throws_last_error [of ExpoRevision server_busy
      "\<lparr>token = Some ''abc''\<rparr>" sample_recording]
  show ?thesis
    by simp
qed

theorem upload_attempt_budget_witness:
  "reachesUpload ExpoRevision server_busy \<lparr>token = Some ''abc''\<rparr> \<and>
   attemptFails ExpoRevision server_busy sample_recording 1 \<and>
   attemptFails ExpoRevision server_busy sample_recording 2 \<and>
   attemptFails ExpoRevision server_busy sample_recording 3 \<and>
   attempts (events (uploadAudio ExpoRevision server_busy sample_recording
      \<lparr>token = Some ''abc''\<rparr>)) = [1, 2, 3] \<and>
   isl (outcome (uploadAudio ExpoRevision server_busy sample_recording
      \<lparr>token = Some ''abc''\<rparr>)) \<and>
   reachesUpload FetchRevision server_recovering \<lparr>token = Some ''abc''\<rparr> \<and>
   attemptFails FetchRevision server_recovering sample_recording 1 \<and>
   attemptFails FetchRevision server_recovering sample_recording 2 \<and>
   \<not> attemptFails FetchRevision server_recovering sample_recording 3 \<and>
   attempts (events (uploadAudio FetchRevision server_recovering sample_recording
      \<lparr>token = Some ''abc''\<rparr>)) = [1, 2, 3] \<and>
   outcome (uploadAudio FetchRevision server_recovering sample_recording
      \<lparr>token = Some ''abc''\<rparr>)
     = Inr \<lparr>success = True, message = None, token = None, rest = []\<rparr>"
proof -
  let ?st = "\<lparr>token = Some ''abc''\<rparr>"
  have ok3: "\<not> attemptFails FetchRevision server_recovering sample_recording 3"
    unfolding attemptFails_def server_recovering_attempts(3) by simp
  have before3: "\<forall>n\<in>{1..<3}. attemptFails FetchRevision server_recovering sample_recording n"
  proof
    fix n :: nat
    assume "n \<in> {1..<3}"
    then have "n = 1 \<or> n = 2" by auto
    with server_recovering_attempts(1,2)
    show "attemptFails FetchRevision server_recovering sample_recording n" by auto
  qed
  have all_busy: "\<forall>n\<in>{1, 2, 3}. attemptFails ExpoRevision server_busy sample_recording n"
    using server_busy_fails by blast
  have upt: "[1..<Suc 3] = [1::nat, 2, 3]"
    by (simp add: upt_rec)
  from upload_attempt_budget [of ExpoRevision server_busy sample_recording ?st]
    held_token_reaches [of ExpoRevision server_busy] all_busy
  have busy: "attempts (events (uploadAudio ExpoRevision server_busy sample_recording ?st))
      = [1, 2, 3] \<and>
     isl (outcome (uploadAudio ExpoRevision server_busy sample_recording ?st))"
    by blast
  from upload_attempt_budget [of FetchRevision server_recovering sample_recording ?st]
    held_token_reaches [of FetchRevision server_recovering]
  have "\<forall>k\<in>{1, 2, 3}.
      \<not> attemptFails FetchRevision server_recovering sample_recording k \<and>
      (\<forall>n\<in>{1..<k}. attemptFails FetchRevision server_recovering sample_recording n) \<longrightarrow>
      attempts (events (uploadAudio FetchRevision server_recovering sample_recording ?st))
        = [1..<Suc k] \<and>
      outcome (uploadAudio FetchRevision server_recovering sample_recording ?st)
        = fst (uploadAttempt FetchRevision server_recovering sample_recording k)"
    by blast
  with ok3 before3
  have "attempts (events (uploadAudio FetchRevision server_recovering sample_recording ?st))
        = [1..<Suc 3] \<and>
      outcome (uploadAudio FetchRevision server_recovering sample_recording ?st)
        = fst (uploadAttempt FetchRevision server_recovering sample_recording 3)"
    by blast
  then have recovering:
    "attempts (events (uploadAudio FetchRevision server_recovering sample_recording ?st))
        = [1, 2, 3] \<and>
     outcome (uploadAudio FetchRevision server_recovering sample_recording ?st)
        = Inr \<lparr>success = True, message = None, token = None, rest = []\<rparr>"
    unfolding upt server_recovering_attempts(3) .
  from held_token_reaches server_busy_fails server_recovering_attempts(1,2) ok3 busy recovering
  show ?thesis
    by blast
qed

text \<open>
  C3. When the loop is reached, attempts 1 and 2 fail and attempt 3 succeeds,
  \<open>uploadAudio\<close> returns the reply of attempt 3, and it has waited exactly twice:
  2000 ms after attempt 1 and 4000 ms after attempt 2, each before the next attempt
  starts, and not after attempt 3.
\<close>

theorem upload_backoff_schedule:
  assumes "reachesUpload rv w st"
    and "attemptFails rv w recordingData 1"
    and "attemptFails rv w recordingData 2"
    and "\<not> attemptFails rv w recordingData 3"
  shows "(\<exists>result. fst (uploadAttempt rv w recordingData 3) = Inr result \<and>
            outcome (uploadAudio rv w recordingData st) = Inr result) \<and>
         delays (events (uploadAudio rv w recordingData st)) = [1 * 2000, 2 * 2000] \<and>
         schedule (events (uploadAudio rv w recordingData st))
           = [AttemptStart 1, Delay 2000, AttemptStart 2, Delay 4000, AttemptStart 3]"
proof -
  let ?run = "uploadAudio rv w recordingData st"
  from assms(4) obtain result where r: "fst (uploadAttempt rv w recordingData 3) = Inr result"
    by (cases "fst (uploadAttempt rv w recordingData 3)") (simp_all add: attemptFails_def)
  from assms have out: "outcome ?run = fst (uploadAttempt rv w recordingData 3)"
    by (simp add: uploadAudio_reached uploadLoop_outcome)
  from assms have sched: "schedule (events ?run)
      = [AttemptStart 1, Delay 2000, AttemptStart 2, Delay 4000, AttemptStart 3]"
    by (simp add: uploadAudio_reached uploadLoop_schedule)
  have "delays (events ?run) = delays (schedule (events ?run))"
    by (simp add: delays_schedule)
  with sched have "delays (events ?run) = [1 * 2000, 2 * 2000]"
    by simp
  with r out sched show ?thesis
    by simp
qed

theorem upload_backoff_schedule_witness:
  "reachesUpload FetchRevision server_recovering \<lparr>token = Some ''abc''\<rparr> \<and>
   attemptFails FetchRevision server_recovering sample_recording 1 \<and>
   attemptFails FetchRevision server_recovering sample_recording 2 \<and>
   \<not> attemptFails FetchRevision server_recovering sample_recording 3 \<and>
   outcome (uploadAudio FetchRevision server_recovering sample_recording
      \<lparr>token = Some ''abc''\<rparr>)
     = Inr \<lparr>success = True, message = None, token = None, rest = []\<rparr> \<and>
   delays (events (uploadAudio FetchRevision server_recovering sample_recording
      \<lparr>token = Some ''abc''\<rparr>)) = [2000, 4000] \<and>
   schedule (events (uploadAudio FetchRevision server_recovering sample_recording
      \<lparr>token = Some ''abc''\<rparr>))
     = [AttemptStart 1, Delay 2000, AttemptStart 2, Delay 4000, AttemptStart 3]"
proof -
  let ?st = "\<lparr>token = Some ''abc''\<rparr>"
  have ok3: "\<not> attemptFails FetchRevision server_recovering sample_recording 3"
    unfolding attemptFails_def server_recovering_attempts(3) by simp
  from upload_backoff_schedule [OF held_token_reaches server_recovering_attempts(1,2) ok3]
  have "outcome (uploadAudio FetchRevision server_recovering sample_recording ?st)
       = Inr \<lparr>success = True, message = None, token = None, rest = []\<rparr> \<and>
     delays (events (uploadAudio FetchRevision server_recovering sample_recording ?st))
       = [2000, 4000] \<and>
     schedule (events (uploadAudio FetchRevision server_recovering sample_recording ?st))
       = [AttemptStart 1, Delay 2000, AttemptStart 2, Delay 4000, AttemptStart 3]"
    unfolding server_recovering_attempts(3) by simp
  with held_token_reaches server_recovering_attempts(1,2) ok3 show ?thesis
    by blast
qed

lemma authFailure_fields:
  "success (authFailure authError) = False"
  "message (authFailure authError) = Some (msg_auth_error_prefix @ error_message authError)"
  by (simp_all add: authFailure_def)

lemma login_failure_keeps_state:
  "fst (login w username password st) = Inl authError \<Longrightarrow> snd (login w username password st) = st"
  "fst (login w username password st) = Inr authResponse \<Longrightarrow> \<not> success authResponse \<Longrightarrow>
     snd (login w username password st) = st"
  by (auto simp add: login_def split: sum.splits option.splits if_splits)

text \<open>
  C4. A call of \<open>uploadAudio\<close> without a token makes one login call, with the fallback
  user name and password of its revision, before anything else, and no further login
  call. When that login throws, or returns a reply whose \<^verbatim>\<open>success\<close> is false, no
  attempt is started and no upload request is sent: the login call is the whole trace,
  the token is left as it was, and a reply with \<^verbatim>\<open>success = false\<close> and a message that
  begins with the authorization-error text is returned. With a token held, no login
  call is made.
\<close>

theorem upload_implicit_login:
  "(\<not> hasToken st \<longrightarrow>
      (\<exists>later. events (uploadAudio rv w recordingData st)
          = LoginCall (fst (fallback_credentials rv)) (snd (fallback_credentials rv)) # later \<and>
        logins later = [])) \<and>
   (\<not> hasToken st \<and> \<not> reachesUpload rv w st \<longrightarrow>
      events (uploadAudio rv w recordingData st)
        = [LoginCall (fst (fallback_credentials rv)) (snd (fallback_credentials rv))] \<and>
      attempts (events (uploadAudio rv w recordingData st)) = [] \<and>
      uploads (events (uploadAudio rv w recordingData st)) = 0 \<and>
      final_state (uploadAudio rv w recordingData st) = st \<and>
      (\<exists>authError. outcome (uploadAudio rv w recordingData st) = Inr (authFailure authError) \<and>
         success (authFailure authError) = False \<and>
         message (authFailure authError)
           = Some (msg_auth_error_prefix @ error_message authError))) \<and>
   (hasToken st \<longrightarrow> logins (events (uploadAudio rv w recordingData st)) = []) \<and>
   fallback_credentials FetchRevision = (fallback_username_v1, ''123456'') \<and>
   fallback_credentials ExpoRevision = (''admin'', ''admin123'')"
proof -
  let ?run = "uploadAudio rv w recordingData st"
  let ?u = "fst (fallback_credentials rv)" and ?p = "snd (fallback_credentials rv)"
  have first: "\<exists>later. events ?run = LoginCall ?u ?p # later \<and> logins later = []"
    if "\<not> hasToken st"
    using that uploadLoop_logins [of rv w recordingData]
    by (auto simp add: uploadAudio_def events_def split: prod.splits sum.splits)
  have state: "final_state ?run = st" if "\<not> hasToken st" "\<not> reachesUpload rv w st"
    using that login_failure_keeps_state [of w ?u ?p st]
    by (auto simp add: uploadAudio_def final_state_def reachesUpload_def
        split: prod.splits sum.splits)
  have failed: "events ?run = [LoginCall ?u ?p] \<and> attempts (events ?run) = [] \<and>
      uploads (events ?run) = 0 \<and> final_state ?run = st \<and>
      (\<exists>authError. outcome ?run = Inr (authFailure authError) \<and>
         success (authFailure authError) = False \<and>
         message (authFailure authError)
           = Some (msg_auth_error_prefix @ error_message authError))"
    if "\<not> hasToken st" "\<not> reachesUpload rv w st"
    using that uploadAudio_not_reached [of rv w st recordingData] state
    by (auto simp add: authFailure_fields)
  have held: "logins (events ?run) = []" if "hasToken st"
    using that uploadLoop_logins [of rv w recordingData]
    by (auto simp add: uploadAudio_def events_def split: prod.splits)
  from first failed held show ?thesis
    by simp
qed

theorem upload_implicit_login_witness:
  "\<not> hasToken \<lparr>token = None\<rparr> \<and>
   \<not> reachesUpload ExpoRevision server_down \<lparr>token = None\<rparr> \<and>
   events (uploadAudio ExpoRevision server_down sample_recording \<lparr>token = None\<rparr>)
     = [LoginCall ''admin'' ''admin123''] \<and>
   uploads (events (uploadAudio ExpoRevision server_down sample_recording \<lparr>token = None\<rparr>)) = 0 \<and>
   outcome (uploadAudio ExpoRevision server_down sample_recording \<lparr>token = None\<rparr>)
     = Inr (authFailure (Error ''Network request failed'')) \<and>
   \<not> reachesUpload ExpoRevision server_denying \<lparr>token = None\<rparr> \<and>
   events (uploadAudio ExpoRevision server_denying sample_recording \<lparr>token = None\<rparr>)
     = [LoginCall ''admin'' ''admin123''] \<and>
   outcome (uploadAudio ExpoRevision server_denying sample_recording \<lparr>token = None\<rparr>)
     = Inr (authFailure (Error msg_cannot_authorize)) \<and>
   hasToken \<lparr>token = Some ''abc''\<rparr> \<and>
   logins (events (uploadAudio ExpoRevision server_busy sample_recording
     \<lparr>token = Some ''abc''\<rparr>)) = []"
proof -
  have no: "\<not> hasToken \<lparr>token = None\<rparr>" and yes: "hasToken \<lparr>token = Some ''abc''\<rparr>"
    by (simp_all add: hasToken_def)
  have down: "\<not> reachesUpload ExpoRevision server_down \<lparr>token = None\<rparr>"
    by (simp add: reachesUpload_def hasToken_def login_def request_def server_down_def)
  have denying: "\<not> reachesUpload ExpoRevision server_denying \<lparr>token = None\<rparr>"
    by (simp add: reachesUpload_def hasToken_def login_def request_def server_denying_def
        ok_def sample_parse_def)
  have out_down: "outcome (uploadAudio ExpoRevision server_down sample_recording \<lparr>token = None\<rparr>)
      = Inr (authFailure (Error ''Network request failed''))"
    by (simp add: outcome_def uploadAudio_def hasToken_def login_def request_def server_down_def)
  have out_denying:
    "outcome (uploadAudio ExpoRevision server_denying sample_recording \<lparr>token = None\<rparr>)
      = Inr (authFailure (Error msg_cannot_authorize))"
    by (simp add: outcome_def uploadAudio_def hasToken_def login_def request_def
        server_denying_def ok_def sample_parse_def)
  from no down upload_implicit_login [of "\<lparr>token = None\<rparr>" ExpoRevision server_down sample_recording]
  have ev_down: "events (uploadAudio ExpoRevision server_down sample_recording \<lparr>token = None\<rparr>)
      = [LoginCall ''admin'' ''admin123''] \<and>
     uploads (events (uploadAudio ExpoRevision server_down sample_recording \<lparr>token = None\<rparr>)) = 0"
    by simp
  from no denying
    upload_implicit_login [of "\<lparr>token = None\<rparr>" ExpoRevision server_denying sample_recording]
  have ev_denying:
    "events (uploadAudio ExpoRevision server_denying sample_recording \<lparr>token = None\<rparr>)
      = [LoginCall ''admin'' ''admin123'']"
    by simp
  from yes
    upload_implicit_login [of "\<lparr>token = Some ''abc''\<rparr>" ExpoRevision server_busy sample_recording]
  have held: "logins (events (uploadAudio ExpoRevision server_busy sample_recording
     \<lparr>token = Some ''abc''\<rparr>)) = []"
    by blast
  from no yes down denying out_down out_denying ev_down ev_denying held show ?thesis
    by blast
qed

section \<open>Properties of a single response, of the stored-token login and of the recorder\<close>

text \<open>
  C5, as stated, fails: the sample server answers the upload with status 200 and the
  body \<open>OK\<close>, which is not JSON. The attempt of \<open>uploadAudio\<close> ends in failure, and so
  does the whole upload after three such attempts; and \<open>uploadRecording\<close> answers a
  status 204 with a failure reply.
\<close>

theorem success_status_plain_body_counterexample:
  "uploadFetch server_plain_ok 1 = Resolves \<lparr>status = 200, body = ''OK''\<rparr> \<and>
   fst (uploadAttempt ExpoRevision server_plain_ok sample_recording 1) = Inl (Error msg_parse_error) \<and>
   outcome (uploadAudio ExpoRevision server_plain_ok sample_recording \<lparr>token = Some ''abc''\<rparr>)
     = Inl (Error msg_parse_error) \<and>
   fst (uploadAttempt FetchRevision server_plain_ok sample_recording 1)
     = Inl (Error ''JSON Parse error: Unexpected token'') \<and>
   success (uploadRecording sample_parse (Resolves \<lparr>status = 204, body = []\<rparr>)) = False"
  by (simp add: outcome_def uploadAudio_def hasToken_def uploadLoop_1 attemptFails_def
      server_plain_ok_def sample_recording_def startsWith_def ok_def sample_parse_def
      uploadRecording_def)

text \<open>
  C5 (as amended). Take an attempt of \<open>uploadAudio\<close> that gets as far as the upload
  response, with a status in [200, 300). If the body parses as JSON, the parsed reply
  is returned to the caller. If it does not, the attempt fails: the Expo revision
  throws its parse-error message, the fetch revision the error of the parser; the
  attempt is then retried like any other failed attempt. In \<open>uploadRecording\<close> every
  response with status 200 or 201 gives the generic success reply whether or not the
  body parses, and every response with any other status gives a failure reply.
\<close>

theorem success_status_body_handling:
  "(healthFetch w attempt = Resolves healthCheck \<and> ok healthCheck \<and>
    uploadFetch w attempt = Resolves response \<and>
    200 \<le> status response \<and> status response < 300 \<and>
    (rv = ExpoRevision \<longrightarrow>
       uri recordingData \<noteq> [] \<and> startsWith ''file://'' (uri recordingData)) \<longrightarrow>
      (\<forall>result. parseJSON w (body response) = Inr result \<longrightarrow>
         fst (uploadAttempt rv w recordingData attempt) = Inr result) \<and>
      (\<forall>parseError. parseJSON w (body response) = Inl parseError \<longrightarrow>
         attemptFails rv w recordingData attempt \<and>
         fst (uploadAttempt rv w recordingData attempt)
           = Inl (case rv of
                    FetchRevision \<Rightarrow> parseError
                  | ExpoRevision \<Rightarrow> Error msg_parse_error))) \<and>
   (status uploaded = 200 \<or> status uploaded = 201 \<longrightarrow>
      uploadRecording parse (Resolves uploaded)
        = \<lparr>success = True, message = Some msg_uploaded, token = None, rest = []\<rparr>) \<and>
   (status uploaded \<noteq> 200 \<and> status uploaded \<noteq> 201 \<longrightarrow>
      uploadRecording parse (Resolves uploaded)
        = \<lparr>success = False,
           message = Some (msg_server_error_prefix @ string_of_nat (status uploaded) @ ''. ''
             @ (if body uploaded \<noteq> [] then body uploaded else msg_unknown_error)),
           token = None, rest = []\<rparr>)"
proof -
  have attempt_part:
    "(\<forall>result. parseJSON w (body response) = Inr result \<longrightarrow>
         fst (uploadAttempt rv w recordingData attempt) = Inr result) \<and>
      (\<forall>parseError. parseJSON w (body response) = Inl parseError \<longrightarrow>
         attemptFails rv w recordingData attempt \<and>
         fst (uploadAttempt rv w recordingData attempt)
           = Inl (case rv of
                    FetchRevision \<Rightarrow> parseError
                  | ExpoRevision \<Rightarrow> Error msg_parse_error))"
    if h: "healthFetch w attempt = Resolves healthCheck" "ok healthCheck"
      "uploadFetch w attempt = Resolves response"
      "200 \<le> status response" "status response < 300"
      "rv = ExpoRevision \<longrightarrow>
         uri recordingData \<noteq> [] \<and> startsWith ''file://'' (uri recordingData)"
  proof -
    from h(4,5) have okr: "ok response"
      by (simp add: ok_def)
    have parsed: "fst (uploadAttempt rv w recordingData attempt) = Inr result"
      if "parseJSON w (body response) = Inr result" for result
      using that h okr by (cases rv) simp_all
    have failed: "fst (uploadAttempt rv w recordingData attempt)
        = Inl (case rv of FetchRevision \<Rightarrow> parseError | ExpoRevision \<Rightarrow> Error msg_parse_error)"
      if "parseJSON w (body response) = Inl parseError" for parseError
      using that h okr by (cases rv) simp_all
    have fails: "attemptFails rv w recordingData attempt"
      if "parseJSON w (body response) = Inl parseError" for parseError
      unfolding attemptFails_def failed [OF that] by simp
    from parsed failed fails show ?thesis
      by blast
  qed
  have generic: "uploadRecording parse (Resolves uploaded)
      = \<lparr>success = True, message = Some msg_uploaded, token = None, rest = []\<rparr>"
    if "status uploaded = 200 \<or> status uploaded = 201"
    using that by (auto simp add: uploadRecording_def split: sum.splits)
  have other: "uploadRecording parse (Resolves uploaded)
      = \<lparr>success = False,
         message = Some (msg_server_error_prefix @ string_of_nat (status uploaded) @ ''. ''
           @ (if body uploaded \<noteq> [] then body uploaded else msg_unknown_error)),
         token = None, rest = []\<rparr>"
    if "status uploaded \<noteq> 200 \<and> status uploaded \<noteq> 201"
    using that by (simp add: uploadRecording_def)
  from attempt_part generic other show ?thesis
    by blast
qed

theorem success_status_body_handling_witness:
  "healthFetch server_plain_ok 1 = Resolves \<lparr>status = 200, body = ''OK''\<rparr> \<and>
   ok \<lparr>status = 200, body = ''OK''\<rparr> \<and>
   uploadFetch server_plain_ok 1 = Resolves \<lparr>status = 200, body = ''OK''\<rparr> \<and>
   parseJSON server_plain_ok ''OK'' = Inl (Error ''JSON Parse error: Unexpected token'') \<and>
   attemptFails ExpoRevision server_plain_ok sample_recording 1 \<and>
   fst (uploadAttempt ExpoRevision server_plain_ok sample_recording 1) = Inl (Error msg_parse_error) \<and>
   uploadRecording sample_parse (Resolves \<lparr>status = 200, body = ''OK''\<rparr>)
     = \<lparr>success = True, message = Some msg_uploaded, token = None, rest = []\<rparr> \<and>
   success (uploadRecording sample_parse (Resolves \<lparr>status = 500, body = ''down''\<rparr>)) = False \<and>
   healthFetch server_recovering 3 = Resolves \<lparr>status = 200, body = ''{\"success\":true}''\<rparr> \<and>
   uploadFetch server_recovering 3 = Resolves \<lparr>status = 201, body = ''{\"success\":true}''\<rparr> \<and>
   parseJSON server_recovering ''{\"success\":true}''
     = Inr \<lparr>success = True, message = None, token = None, rest = []\<rparr> \<and>
   fst (uploadAttempt FetchRevision server_recovering sample_recording 3)
     = Inr \<lparr>success = True, message = None, token = None, rest = []\<rparr>"
proof -
  let ?plain = "\<lparr>status = 200, body = ''OK''\<rparr>"
  let ?health = "\<lparr>status = 200, body = ''{\"success\":true}''\<rparr>"
  let ?created = "\<lparr>status = 201, body = ''{\"success\":true}''\<rparr>"
  let ?down = "\<lparr>status = 500, body = ''down''\<rparr>"
  have h1: "healthFetch server_plain_ok 1 = Resolves ?plain"
    and u1: "uploadFetch server_plain_ok 1 = Resolves ?plain"
    and p1: "parseJSON server_plain_ok (body ?plain) = Inl (Error ''JSON Parse error: Unexpected token'')"
    by (simp_all add: server_plain_ok_def sample_parse_def)
  have h3: "healthFetch server_recovering 3 = Resolves ?health"
    and u3: "uploadFetch server_recovering 3 = Resolves ?created"
    and p3: "parseJSON server_recovering (body ?created)
      = Inr \<lparr>success = True, message = None, token = None, rest = []\<rparr>"
    by (simp_all add: server_recovering_def sample_parse_def)
  have ok1: "ok ?plain" and ok3: "ok ?health"
    by (simp_all add: ok_def)
  have st1: "200 \<le> status ?plain" "status ?plain < 300" "status ?plain = 200 \<or> status ?plain = 201"
    and st3: "200 \<le> status ?created" "status ?created < 300"
    and st5: "status ?down \<noteq> 200 \<and> status ?down \<noteq> 201"
    by simp_all
  have uri: "uri sample_recording \<noteq> [] \<and> startsWith ''file://'' (uri sample_recording)"
    by (simp add: sample_recording_def startsWith_def)
  from success_status_body_handling [of server_plain_ok 1 ?plain ?plain ExpoRevision
      sample_recording ?plain sample_parse] h1 ok1 u1 st1 uri p1
  have plain: "attemptFails ExpoRevision server_plain_ok sample_recording 1 \<and>
     fst (uploadAttempt ExpoRevision server_plain_ok sample_recording 1)
       = Inl (case ExpoRevision of
                FetchRevision \<Rightarrow> Error ''JSON Parse error: Unexpected token''
              | ExpoRevision \<Rightarrow> Error msg_parse_error) \<and>
     uploadRecording sample_parse (Resolves ?plain)
       = \<lparr>success = True, message = Some msg_uploaded, token = None, rest = []\<rparr>"
    by blast
  from success_status_body_handling [of server_recovering 3 ?health ?created FetchRevision
      sample_recording ?down sample_parse] h3 ok3 u3 st3 st5 p3
  have json: "fst (uploadAttempt FetchRevision server_recovering sample_recording 3)
       = Inr \<lparr>success = True, message = None, token = None, rest = []\<rparr> \<and>
     uploadRecording sample_parse (Resolves ?down)
       = \<lparr>success = False,
          message = Some (msg_server_error_prefix @ string_of_nat (status ?down) @ ''. ''
            @ (if body ?down \<noteq> [] then body ?down else msg_unknown_error)),
          token = None, rest = []\<rparr>"
    by blast
  from json have down: "success (uploadRecording sample_parse (Resolves ?down)) = False"
    by simp
  from h1 ok1 u1 p1 plain h3 u3 p3 json down show ?thesis
    by simp
qed

lemma audio_run_invariant: "isRecording (audio_run ops) = (recording (audio_run ops) \<noteq> None)"
proof (induction ops rule: rev_induct)
  case Nil
  then show ?case
    by (simp add: audio_run_def new_AudioService_def)
next
  case (snoc x xs)
  then show ?case
    by (cases x)
      (auto simp add: audio_run_def startRecording_def stopRecording_def
        split: sum.splits if_splits)
qed

text \<open>
  C7. When a recording is under way (\<open>isRecording\<close> is true), \<open>startRecording\<close> returns
  \<^verbatim>\<open>null\<close>, leaves the service as it is (the recording object and the flag), and makes
  no call to the platform. After any sequence of start and stop calls on a fresh
  service, a call that creates a recording object finds none held: there is never a
  second one beside the first.
\<close>

theorem start_while_recording_is_noop:
  "(isRecording st \<longrightarrow> startRecording p st = (None, st, [])) \<and>
   (CreateRecording \<in> set (snd (snd (startRecording p (audio_run ops)))) \<longrightarrow>
      \<not> isRecording (audio_run ops) \<and> recording (audio_run ops) = None)"
proof -
  have noop: "isRecording st \<Longrightarrow> startRecording p st = (None, st, [])"
    by (simp add: startRecording_def)
  have "\<not> isRecording (audio_run ops)"
    if "CreateRecording \<in> set (snd (snd (startRecording p (audio_run ops))))"
    using that by (auto simp add: startRecording_def split: if_splits)
  with noop audio_run_invariant [of ops] show ?thesis
    by auto
qed

theorem start_while_recording_is_noop_witness:
  "isRecording \<lparr>recording = Some 7, isRecording = True\<rparr> \<and>
   startRecording
     \<lparr>requestPermissionsAsync = Inr ''granted'', setAudioModeAsync = Inr (),
      createAsync = Inr 8, stopAndUnloadAsync = Inr (), getURI = Some ''file:///rec.m4a''\<rparr>
     \<lparr>recording = Some 7, isRecording = True\<rparr>
     = (None, \<lparr>recording = Some 7, isRecording = True\<rparr>, []) \<and>
   CreateRecording \<in> set (snd (snd (startRecording
     \<lparr>requestPermissionsAsync = Inr ''granted'', setAudioModeAsync = Inr (),
      createAsync = Inr 8, stopAndUnloadAsync = Inr (), getURI = Some ''file:///rec.m4a''\<rparr>
     (audio_run [])))) \<and>
   recording (audio_run []) = None"
proof -
  let ?p = "\<lparr>requestPermissionsAsync = Inr ''granted'', setAudioModeAsync = Inr (),
      createAsync = Inr 8, stopAndUnloadAsync = Inr (), getURI = Some ''file:///rec.m4a''\<rparr>"
  have a: "isRecording \<lparr>recording = Some 7, isRecording = True\<rparr>"
    by simp
  have c: "CreateRecording \<in> set (snd (snd (startRecording ?p (audio_run []))))"
    by (simp add: audio_run_def new_AudioService_def startRecording_def requestPermissions_def)
  from a c start_while_recording_is_noop [of "\<lparr>recording = Some 7, isRecording = True\<rparr>" ?p "[]"]
  show ?thesis
    by blast
qed

text \<open>
  C9. \<open>login\<close> of the stored-token service never throws: it always returns a reply.
  When the request throws, the reply has \<^verbatim>\<open>success = false\<close> and a message (that of the
  error, or the fixed text for a thrown value that is not an error), and the service is
  unchanged. The held token changes only when the reply of the server has
  \<^verbatim>\<open>success = true\<close> and a non-empty token, which then is the new token; a reply
  with \<^verbatim>\<open>success = false\<close> leaves the service unchanged.
\<close>

theorem login_stored_never_throws:
  "(\<exists>reply. fst (login_stored w username password st) = Inr reply) \<and>
   (\<forall>err. makeRequest w (loginFetch w username password) = Inl err \<longrightarrow>
      fst (login_stored w username password st)
        = Inr \<lparr>success = False,
               message = Some (case err of Error m \<Rightarrow> m | NonError \<Rightarrow> msg_login_error),
               token = None, rest = []\<rparr> \<and>
      snd (login_stored w username password st) = st) \<and>
   (authToken (snd (login_stored w username password st)) \<noteq> authToken st \<longrightarrow>
      (\<exists>response t. makeRequest w (loginFetch w username password) = Inr response \<and>
         success response \<and> ApiReply.token response = Some t \<and> t \<noteq> [] \<and>
         authToken (snd (login_stored w username password st)) = Some t)) \<and>
   (\<forall>response. makeRequest w (loginFetch w username password) = Inr response \<and>
      \<not> success response \<longrightarrow>
      fst (login_stored w username password st) = Inr response \<and>
      snd (login_stored w username password st) = st)"
proof -
  let ?req = "makeRequest w (loginFetch w username password)"
  have returns: "\<exists>reply. fst (login_stored w username password st) = Inr reply"
    by (simp add: login_stored_def split: sum.splits option.splits)
  have caught: "fst (login_stored w username password st)
        = Inr \<lparr>success = False,
               message = Some (case err of Error m \<Rightarrow> m | NonError \<Rightarrow> msg_login_error),
               token = None, rest = []\<rparr> \<and>
      snd (login_stored w username password st) = st"
    if "?req = Inl err" for err
    using that by (simp add: login_stored_def)
  have changed: "\<exists>response t. ?req = Inr response \<and> success response \<and>
      ApiReply.token response = Some t \<and> t \<noteq> [] \<and>
      authToken (snd (login_stored w username password st)) = Some t"
    if "authToken (snd (login_stored w username password st)) \<noteq> authToken st"
    using that
    by (auto simp add: login_stored_def setAuthToken_def split: sum.splits option.splits if_splits)
  have refused: "fst (login_stored w username password st) = Inr response \<and>
      snd (login_stored w username password st) = st"
    if "?req = Inr response \<and> \<not> success response" for response
    using that by (simp add: login_stored_def split: option.splits)
  from returns caught changed refused show ?thesis
    by blast
qed

theorem login_stored_never_throws_witness:
  "makeRequest server_down (loginFetch server_down ''admin'' ''admin123'')
     = Inl (Error ''Network request failed'') \<and>
   login_stored server_down ''admin'' ''admin123'' \<lparr>authToken = Some ''old'', authTokenItem = Some ''old''\<rparr>
     = (Inr \<lparr>success = False, message = Some ''Network request failed'', token = None, rest = []\<rparr>,
        \<lparr>authToken = Some ''old'', authTokenItem = Some ''old''\<rparr>) \<and>
   makeRequest server_denying (loginFetch server_denying ''admin'' ''wrong'')
     = Inr \<lparr>success = False, message = None, token = None, rest = []\<rparr> \<and>
   snd (login_stored server_denying ''admin'' ''wrong''
          \<lparr>authToken = Some ''old'', authTokenItem = Some ''old''\<rparr>)
     = \<lparr>authToken = Some ''old'', authTokenItem = Some ''old''\<rparr> \<and>
   authToken (snd (login_stored server_busy ''admin'' ''admin123''
          \<lparr>authToken = None, authTokenItem = None\<rparr>)) = Some ''abc''"
proof -
  let ?old = "\<lparr>authToken = Some ''old'', authTokenItem = Some ''old''\<rparr>"
  let ?none = "\<lparr>authToken = None, authTokenItem = None\<rparr>"
  have down: "makeRequest server_down (loginFetch server_down ''admin'' ''admin123'')
      = Inl (Error ''Network request failed'')"
    by (simp add: makeRequest_def server_down_def)
  have denying: "makeRequest server_denying (loginFetch server_denying ''admin'' ''wrong'')
      = Inr \<lparr>success = False, message = None, token = None, rest = []\<rparr>"
    by (simp add: makeRequest_def server_denying_def sample_parse_def ok_def)
  have busy: "authToken (snd (login_stored server_busy ''admin'' ''admin123'' ?none)) \<noteq> authToken ?none"
    by (simp add: login_stored_def makeRequest_def server_busy_def sample_parse_def ok_def
        setAuthToken_def)
  have req_busy: "makeRequest server_busy (loginFetch server_busy ''admin'' ''admin123'')
      = Inr \<lparr>success = True, message = None, token = Some ''abc'', rest = []\<rparr>"
    by (simp add: makeRequest_def server_busy_def sample_parse_def ok_def)
  from down login_stored_never_throws [of server_down "''admin''" "''admin123''" ?old]
  have r1: "login_stored server_down ''admin'' ''admin123'' ?old
     = (Inr \<lparr>success = False, message = Some ''Network request failed'', token = None, rest = []\<rparr>,
        ?old)"
    by (simp add: prod_eq_iff)
  from denying login_stored_never_throws [of server_denying "''admin''" "''wrong''" ?old]
  have r2: "snd (login_stored server_denying ''admin'' ''wrong'' ?old) = ?old"
    by simp
  from busy req_busy login_stored_never_throws [of server_busy "''admin''" "''admin123''" ?none]
  have r3: "authToken (snd (login_stored server_busy ''admin'' ''admin123'' ?none)) = Some ''abc''"
    by auto
  from down denying r1 r2 r3 show ?thesis
    by blast
qed

section \<open>Properties of the local store\<close>

lemma stringify_elems_map:
  "stringify_elems xs = map (\<lambda>x. case JSON_stringify x of None \<Rightarrow> Null | Some j \<Rightarrow> j) xs"
  by (induction xs) simp_all

lemma parse_elems_map: "parse_elems ds = map JSON_parse ds"
  by (induction ds) simp_all

text \<open>Writing out what was parsed gives the document back.\<close>

lemma stringify_parse:
  "JSON_stringify (JSON_parse d) = Some d"
  "stringify_elems (parse_elems ds) = ds"
  "stringify_props (parse_props kvs) = kvs"
  by (induction d and ds and kvs rule: JSON_parse_parse_elems_parse_props.induct) simp_all

lemma stringify_props_keys:
  "k \<notin> fst ` set kvs \<Longrightarrow> map_of (parse_props (stringify_props kvs)) k = None"
  by (induction kvs) (auto split: option.splits)

text \<open>A property of an object after a round trip through JSON text.\<close>

lemma map_of_round_trip:
  "distinct (map fst kvs) \<Longrightarrow>
   map_of (parse_props (stringify_props kvs)) k =
     (case map_of kvs k of
        None \<Rightarrow> None
      | Some v \<Rightarrow> map_option JSON_parse (JSON_stringify v))"
proof (induction kvs)
  case Nil
  then show ?case by simp
next
  case (Cons kv kvs)
  obtain k' v' where kv: "kv = (k', v')" by (cases kv)
  from Cons.prems kv have notin: "k' \<notin> fst ` set kvs" and d: "distinct (map fst kvs)"
    by simp_all
  show ?case
  proof (cases "k = k'")
    case True
    with kv notin stringify_props_keys [of k' kvs] show ?thesis
      by (simp split: option.splits)
  next
    case False
    with kv Cons.IH [OF d] show ?thesis
      by (simp split: option.splits)
  qed
qed

text \<open>What is read back for a saved recording, property by property.\<close>

lemma recording_round_trip:
  assumes "JSON_stringify (recording_value r) = Some j"
  shows "getProp (JSON_parse j) k =
     Inr (case map_of [(''id'', JStr (id' r)),
           (''userId'', JStr (userId r)),
           (''locationId'', JStr (locationId r)),
           (''startTime'', JDate (startTime r)),
           (''endTime'', (case endTime r of None \<Rightarrow> JUndefined | Some d \<Rightarrow> JDate d)),
           (''audioFilePath'', JStr (audioFilePath r)),
           (''duration'', JNum (duration r)),
           (''serverId'', (case serverId r of None \<Rightarrow> JUndefined | Some n \<Rightarrow> JNum n)),
           (''synced'', (case synced r of None \<Rightarrow> JUndefined | Some b \<Rightarrow> JBool b))] k of
            None \<Rightarrow> JUndefined
          | Some v \<Rightarrow> (case JSON_stringify v of None \<Rightarrow> JUndefined | Some d \<Rightarrow> JSON_parse d))"
proof -
  let ?kvs = "[(''id'', JStr (id' r)),
           (''userId'', JStr (userId r)),
           (''locationId'', JStr (locationId r)),
           (''startTime'', JDate (startTime r)),
           (''endTime'', (case endTime r of None \<Rightarrow> JUndefined | Some d \<Rightarrow> JDate d)),
           (''audioFilePath'', JStr (audioFilePath r)),
           (''duration'', JNum (duration r)),
           (''serverId'', (case serverId r of None \<Rightarrow> JUndefined | Some n \<Rightarrow> JNum n)),
           (''synced'', (case synced r of None \<Rightarrow> JUndefined | Some b \<Rightarrow> JBool b))]"
  have dist: "distinct (map fst ?kvs)"
    by simp
  from assms have j: "j = Obj (stringify_props ?kvs)"
    unfolding recording_value_def by (simp only: JSON_stringify.simps option.inject)
  have "getProp (JSON_parse j) k
      = Inr (case map_of (parse_props (stringify_props ?kvs)) k of None \<Rightarrow> JUndefined | Some v \<Rightarrow> v)"
    unfolding j by (simp only: JSON_parse.simps getProp.simps)
  also have "map_of (parse_props (stringify_props ?kvs)) k
      = (case map_of ?kvs k of None \<Rightarrow> None | Some v \<Rightarrow> map_option JSON_parse (JSON_stringify v))"
    using dist by (rule map_of_round_trip)
  finally show ?thesis
    by (simp only: option.case_distrib [of "\<lambda>x. case x of None \<Rightarrow> JUndefined | Some v \<Rightarrow> v"])
      (simp split: option.splits)
qed

lemma recording_fields:
  assumes "JSON_stringify (recording_value r) = Some j"
  shows "getProp (JSON_parse j) ''id'' = Inr (JStr (id' r))"
    and "getProp (JSON_parse j) ''userId'' = Inr (JStr (userId r))"
    and "getProp (JSON_parse j) ''locationId'' = Inr (JStr (locationId r))"
    and "getProp (JSON_parse j) ''audioFilePath'' = Inr (JStr (audioFilePath r))"
    and "getProp (JSON_parse j) ''synced''
           = Inr (case synced r of None \<Rightarrow> JUndefined | Some b \<Rightarrow> JBool b)"
    and "getProp (JSON_parse j) ''startTime''
           = Inr (case startTime r of ValidDate ts \<Rightarrow> JStr ts | InvalidDate \<Rightarrow> JNull)"
    and "getProp (JSON_parse j) ''endTime''
           = Inr (case endTime r of
                    None \<Rightarrow> JUndefined
                  | Some (ValidDate ts) \<Rightarrow> JStr ts
                  | Some InvalidDate \<Rightarrow> JNull)"
    and "getProp (JSON_parse j) ''duration''
           = Inr (case duration r of Finite q \<Rightarrow> JNum (Finite q) | other \<Rightarrow> JNull)"
    and "getProp (JSON_parse j) ''serverId''
           = Inr (case serverId r of
                    None \<Rightarrow> JUndefined
                  | Some (Finite q) \<Rightarrow> JNum (Finite q)
                  | Some other \<Rightarrow> JNull)"
  by (simp_all add: recording_round_trip [OF assms] split: option.splits Date.splits number.splits)

lemma recording_value_stringify: "\<exists>j. JSON_stringify (recording_value r) = Some j"
  by (simp add: recording_value_def)

lemma getRecordings_parsed:
  assumes "getRecordings store = JArr olds"
  shows "\<exists>ds. olds = parse_elems ds"
proof (cases "\<exists>d. rejecting store = None \<and> items store RECORDINGS_KEY = Some (JsonText d)")
  case True
  then obtain d where d: "rejecting store = None" "items store RECORDINGS_KEY = Some (JsonText d)"
    by blast
  with assms have "JSON_parse d = JArr olds"
    by (simp add: getRecordings_def getItem_def JSON_parse_text_def)
  then show ?thesis
    by (cases d) auto
next
  case False
  with assms have "olds = []"
    by (auto simp add: getRecordings_def getItem_def JSON_parse_text_def
        split: option.splits stored_text.splits if_splits sum.splits)
  then have "olds = parse_elems []" by simp
  then show ?thesis ..
qed

lemma stringify_elems_append:
  "stringify_elems (xs @ ys) = stringify_elems xs @ stringify_elems ys"
  by (simp add: stringify_elems_map)

lemma parse_elems_append: "parse_elems (xs @ ys) = parse_elems xs @ parse_elems ys"
  by (simp add: parse_elems_map)

lemma getRecordings_stored:
  "rejecting store = None \<Longrightarrow> items store RECORDINGS_KEY = Some (JsonText d) \<Longrightarrow>
   getRecordings store = JSON_parse d"
  by (simp add: getRecordings_def getItem_def JSON_parse_text_def)

lemma setItem_works:
  "rejecting store = None \<Longrightarrow>
   snd (setItem store key v) = store\<lparr>items := (items store)(key \<mapsto> v)\<rparr>"
  by (simp add: setItem_def)

lemma saveRecording_appends:
  assumes "rejecting store = None" and "getRecordings store = JArr olds"
    and "JSON_stringify (recording_value r) = Some j"
  shows "getRecordings (saveRecording r store) = JArr (olds @ [JSON_parse j])"
proof -
  from assms(2) obtain ds where ds: "olds = parse_elems ds"
    using getRecordings_parsed by blast
  have str: "JSON_stringify (JArr (olds @ [recording_value r])) = Some (Arr (ds @ [j]))"
    using assms(3) by (simp add: ds stringify_elems_append stringify_parse)
  have saved: "saveRecording r store
      = store\<lparr>items := (items store)(RECORDINGS_KEY \<mapsto> JsonText (Arr (ds @ [j])))\<rparr>"
    using assms(1) by (simp add: saveRecording_def assms(2) str setItem_works del: JSON_stringify.simps)
  have "getRecordings (saveRecording r store) = JSON_parse (Arr (ds @ [j]))"
    unfolding saved using assms(1) by (intro getRecordings_stored) simp_all
  then show ?thesis
    by (simp add: ds parse_elems_append)
qed

text \<open>
  C8 (as amended). When the store accepts the calls and holds a list (or nothing),
  saving a \<open>Recording\<close> and reading the list back gives the list held before followed
  by one new last element. Its \<^verbatim>\<open>id\<close>, \<^verbatim>\<open>userId\<close>, \<^verbatim>\<open>locationId\<close>,
  \<^verbatim>\<open>audioFilePath\<close> and \<^verbatim>\<open>synced\<close> are those of the saved recording (an absent
  \<^verbatim>\<open>synced\<close> stays absent); \<^verbatim>\<open>startTime\<close> and \<^verbatim>\<open>endTime\<close> are the ISO strings of
  the saved dates, not dates (\<^verbatim>\<open>null\<close> for an invalid date); \<^verbatim>\<open>duration\<close> and
  \<^verbatim>\<open>serverId\<close> are the saved numbers when these are finite (\<^verbatim>\<open>null\<close> otherwise).
\<close>

theorem saved_recording_read_back:
  assumes "rejecting store = None" and "getRecordings store = JArr olds"
  shows "\<exists>saved. getRecordings (saveRecording r store) = JArr (olds @ [saved]) \<and>
     getProp saved ''id'' = Inr (JStr (id' r)) \<and>
     getProp saved ''userId'' = Inr (JStr (userId r)) \<and>
     getProp saved ''locationId'' = Inr (JStr (locationId r)) \<and>
     getProp saved ''audioFilePath'' = Inr (JStr (audioFilePath r)) \<and>
     getProp saved ''synced'' = Inr (case synced r of None \<Rightarrow> JUndefined | Some b \<Rightarrow> JBool b) \<and>
     getProp saved ''startTime''
       = Inr (case startTime r of ValidDate ts \<Rightarrow> JStr ts | InvalidDate \<Rightarrow> JNull) \<and>
     getProp saved ''endTime''
       = Inr (case endTime r of
                None \<Rightarrow> JUndefined
              | Some (ValidDate ts) \<Rightarrow> JStr ts
              | Some InvalidDate \<Rightarrow> JNull) \<and>
     getProp saved ''duration''
       = Inr (case duration r of Finite q \<Rightarrow> JNum (Finite q) | other \<Rightarrow> JNull) \<and>
     getProp saved ''serverId''
       = Inr (case serverId r of
                None \<Rightarrow> JUndefined
              | Some (Finite q) \<Rightarrow> JNum (Finite q)
              | Some other \<Rightarrow> JNull)"
proof -
  obtain j where j: "JSON_stringify (recording_value r) = Some j"
    using recording_value_stringify by blast
  from assms j have "getRecordings (saveRecording r store) = JArr (olds @ [JSON_parse j])"
    by (rule saveRecording_appends)
  with recording_fields [OF j] show ?thesis
    by blast
qed

text \<open>
  C8, as stated, fails: a recording is saved as its JSON text, and what is read back
  holds the two times as strings where the saved \<open>Recording\<close> holds dates; the value
  read back is not the value saved.
\<close>

theorem saved_recording_dates_counterexample:
  "getProp (recording_value sample_saved) ''startTime''
     = Inr (JDate (ValidDate ''2025-06-11T10:00:00.000Z'')) \<and>
   getRecordings (saveRecording sample_saved empty_storage)
     = JArr [JObj [(''id'', JStr ''1749636000000''), (''userId'', JStr ''1''),
                   (''locationId'', JStr ''2''),
                   (''startTime'', JStr ''2025-06-11T10:00:00.000Z''),
                   (''endTime'', JStr ''2025-06-11T10:00:12.000Z''),
                   (''audioFilePath'', JStr ''file:///cache/rec.m4a''),
                   (''duration'', JNum (Finite 12000)), (''synced'', JBool False)]] \<and>
   getRecordings (saveRecording sample_saved empty_storage) \<noteq> JArr [recording_value sample_saved]"
  by (simp add: recording_value_def sample_saved_def empty_storage_def getRecordings_def
      saveRecording_def getItem_def setItem_def JSON_parse_text_def RECORDINGS_KEY_def)

theorem saved_recording_read_back_witness:
  "rejecting empty_storage = None \<and> getRecordings empty_storage = JArr [] \<and>
   (\<exists>saved. getRecordings (saveRecording sample_saved empty_storage) = JArr [saved] \<and>
      getProp saved ''id'' = Inr (JStr ''1749636000000'') \<and>
      getProp saved ''synced'' = Inr (JBool False) \<and>
      getProp saved ''audioFilePath'' = Inr (JStr ''file:///cache/rec.m4a'') \<and>
      getProp saved ''startTime'' = Inr (JStr ''2025-06-11T10:00:00.000Z''))"
proof -
  have a: "rejecting empty_storage = None" and b: "getRecordings empty_storage = JArr []"
    by (simp_all add: empty_storage_def getRecordings_def getItem_def)
  from saved_recording_read_back [OF a b, of sample_saved] a b show ?thesis
    by (auto simp add: sample_saved_def)
qed

lemma filterRecordings_map:
  assumes "\<And>r. getProp (f r) ''id'' = Inr (JStr (id' r))"
  shows "filterRecordings recordingId (map f rs)
           = Inr (map f (filter (\<lambda>r. id' r \<noteq> recordingId) rs))"
  by (induction rs) (simp_all add: assms)

text \<open>
  C10. When the store accepts the calls and holds the list of recordings \<open>rs\<close>,
  \<open>removeRecording\<close> leaves it holding \<open>rs\<close> without the entries whose id is the given
  one, the others in their order; the other items of the store are untouched; an id
  that no entry has leaves the store as it was; and the list read back afterwards is
  the list read before, filtered by \<^verbatim>\<open>r.id !== recordingId\<close>.
\<close>

theorem removeRecording_filters_by_id:
  assumes "rejecting store = None"
    and "items store RECORDINGS_KEY
           = Some (JsonText (Arr (stringify_elems (map recording_value rs))))"
  shows "items (removeRecording recordingId store) RECORDINGS_KEY
           = Some (JsonText (Arr (stringify_elems
                (map recording_value (filter (\<lambda>r. id' r \<noteq> recordingId) rs))))) \<and>
         (\<forall>key. key \<noteq> RECORDINGS_KEY \<longrightarrow>
            items (removeRecording recordingId store) key = items store key) \<and>
         (recordingId \<notin> id' ` set rs \<longrightarrow> removeRecording recordingId store = store) \<and>
         (\<exists>stored. getRecordings store = JArr stored \<and>
            getRecordings (removeRecording recordingId store)
              = JArr (filter (\<lambda>v. getProp v ''id'' \<noteq> Inr (JStr recordingId)) stored))"
proof -
  let ?json = "\<lambda>r. case JSON_stringify (recording_value r) of None \<Rightarrow> Null | Some j \<Rightarrow> j"
  let ?reread = "\<lambda>r. JSON_parse (?json r)"
  let ?kept = "filter (\<lambda>r. id' r \<noteq> recordingId) rs"
  have id_reread: "getProp (?reread r) ''id'' = Inr (JStr (id' r))" for r
  proof -
    obtain j where j: "JSON_stringify (recording_value r) = Some j"
      using recording_value_stringify by blast
    with recording_fields(1) [OF j] show ?thesis by simp
  qed
  have stored: "stringify_elems (map recording_value xs) = map ?json xs" for xs
    by (simp add: stringify_elems_map)
  have read: "getRecordings store = JArr (map ?reread rs)"
    using assms by (simp add: getRecordings_stored stored parse_elems_map del: JSON_stringify.simps)
  have filtered: "filterRecordings recordingId (map ?reread rs) = Inr (map ?reread ?kept)"
    using id_reread by (rule filterRecordings_map)
  have "stringify_elems (map ?reread xs) = map ?json xs" for xs
    by (simp add: stringify_elems_map stringify_parse)
  then have str: "JSON_stringify (JArr (map ?reread ?kept))
      = Some (Arr (stringify_elems (map recording_value ?kept)))"
    by (simp add: stored)
  have removed: "removeRecording recordingId store
      = store\<lparr>items := (items store)(RECORDINGS_KEY \<mapsto>
          JsonText (Arr (stringify_elems (map recording_value ?kept))))\<rparr>"
    using assms(1) by (simp add: removeRecording_def read filtered str setItem_works
        del: JSON_stringify.simps)
  have item: "items (removeRecording recordingId store) RECORDINGS_KEY
      = Some (JsonText (Arr (stringify_elems (map recording_value ?kept))))"
    by (simp add: removed)
  have others: "\<forall>key. key \<noteq> RECORDINGS_KEY \<longrightarrow>
      items (removeRecording recordingId store) key = items store key"
    by (simp add: removed)
  have same: "removeRecording recordingId store = store" if "recordingId \<notin> id' ` set rs"
  proof -
    from that have "?kept = rs"
      by (induction rs) auto
    with assms(2) have "(items store)(RECORDINGS_KEY \<mapsto>
        JsonText (Arr (stringify_elems (map recording_value ?kept)))) = items store"
      by (simp add: fun_upd_idem)
    then show ?thesis
      by (simp add: removed)
  qed
  have "getRecordings (removeRecording recordingId store) = JArr (map ?reread ?kept)"
    using assms(1) item
    by (subst getRecordings_stored [where d = "Arr (stringify_elems (map recording_value ?kept))"])
      (simp_all add: removed stored parse_elems_map del: JSON_stringify.simps)
  moreover have "map ?reread ?kept
      = filter (\<lambda>v. getProp v ''id'' \<noteq> Inr (JStr recordingId)) (map ?reread rs)"
    by (induction rs) (simp_all add: id_reread del: JSON_stringify.simps)
  ultimately have reads: "\<exists>stored. getRecordings store = JArr stored \<and>
      getRecordings (removeRecording recordingId store)
        = JArr (filter (\<lambda>v. getProp v ''id'' \<noteq> Inr (JStr recordingId)) stored)"
    using read by simp
  from item others same reads show ?thesis
    by blast
qed

theorem removeRecording_filters_by_id_witness:
  "rejecting (saveRecording sample_saved (saveRecording (sample_saved\<lparr>id' := ''5''\<rparr>) empty_storage))
     = None \<and>
   items (saveRecording sample_saved (saveRecording (sample_saved\<lparr>id' := ''5''\<rparr>) empty_storage))
       RECORDINGS_KEY
     = Some (JsonText (Arr (stringify_elems
         (map recording_value [sample_saved\<lparr>id' := ''5''\<rparr>, sample_saved])))) \<and>
   items (removeRecording ''1749636000000''
       (saveRecording sample_saved (saveRecording (sample_saved\<lparr>id' := ''5''\<rparr>) empty_storage)))
       RECORDINGS_KEY
     = Some (JsonText (Arr (stringify_elems (map recording_value [sample_saved\<lparr>id' := ''5''\<rparr>]))))"
proof -
  let ?store = "saveRecording sample_saved (saveRecording (sample_saved\<lparr>id' := ''5''\<rparr>) empty_storage)"
  have a: "rejecting ?store = None"
    by (simp add: recording_value_def sample_saved_def empty_storage_def getRecordings_def
        saveRecording_def getItem_def setItem_def JSON_parse_text_def RECORDINGS_KEY_def)
  have b: "items ?store RECORDINGS_KEY
     = Some (JsonText (Arr (stringify_elems
         (map recording_value [sample_saved\<lparr>id' := ''5''\<rparr>, sample_saved]))))"
    by (simp add: recording_value_def sample_saved_def empty_storage_def getRecordings_def
        saveRecording_def getItem_def setItem_def JSON_parse_text_def RECORDINGS_KEY_def)
  have c: "filter (\<lambda>r. id' r \<noteq> ''1749636000000'') [sample_saved\<lparr>id' := ''5''\<rparr>, sample_saved]
      = [sample_saved\<lparr>id' := ''5''\<rparr>]"
    by (simp add: sample_saved_def)
  from removeRecording_filters_by_id [OF a b, of "''1749636000000''"]
  have "items (removeRecording ''1749636000000'' ?store) RECORDINGS_KEY
     = Some (JsonText (Arr (stringify_elems (map recording_value
         (filter (\<lambda>r. id' r \<noteq> ''1749636000000'') [sample_saved\<lparr>id' := ''5''\<rparr>, sample_saved])))))"
    by blast
  with a b show ?thesis
    unfolding c by blast
qed

end
